theory Spec2Isabelle
  imports Main "HOL-Library.AList" "HOL-Library.Multiset"
begin

chapter \<open>Chunked file transfer: the two protocol variants of the repository\<close>

text \<open>
  The repository holds two implementations of the same idea. \<^verbatim>\<open>first_task\<close> is the
  class-based variant (\<^verbatim>\<open>FileTransferServer\<close>, \<^verbatim>\<open>FileTransferClient\<close>): frames carry a
  4-byte big-endian length prefix, chunks are sent shuffled and unacknowledged, and the
  client repeats the whole upload when something is missing. \<^verbatim>\<open>The-Multi-Client-Mayhem\<close>
  is the function-based variant (\<^verbatim>\<open>handle_client\<close>, \<^verbatim>\<open>upload_file\<close>): every chunk carries
  an MD5 digest and is acknowledged with \<^verbatim>\<open>OK\<close> or \<^verbatim>\<open>RETRANSMIT:<n>\<close>.

  Python \<^verbatim>\<open>bytes\<close> are lists of 8-bit characters; a Python \<^verbatim>\<open>dict\<close> is an association
  list with distinct keys in insertion order, written with \<^const>\<open>AList.update\<close>
  (replace in place, or append); Python integers are \<^typ>\<open>int\<close>. Every exception the
  modelled code can raise is a value of \<open>py_error\<close>.
\<close>

section \<open>Data\<close>

type_synonym bytes = string

datatype py_error =
    ValueError | TypeError | KeyError | IndexError
  | ConnectionError | JSONDecodeError | UnicodeEncodeError

text \<open>The reassembly buffer: \<^verbatim>\<open>Dict[int, bytes]\<close>, sequence number to payload.\<close>

type_synonym chunk_dict = "(int \<times> bytes) list"

definition dict_keys :: "chunk_dict \<Rightarrow> int list" where
  "dict_keys d = map fst d"

definition dict_get :: "chunk_dict \<Rightarrow> int \<Rightarrow> bytes" where
  \<comment> \<open>\<^verbatim>\<open>d[k]\<close>, only ever used with a key taken from the dictionary or guarded by \<^verbatim>\<open>k in d\<close>.\<close>
  "dict_get d k = (case map_of d k of Some v \<Rightarrow> v | None \<Rightarrow> [])"

section \<open>Splitting a file into chunks\<close>

subsection \<open>first\_task: \<^verbatim>\<open>FileTransferServer.split_file\<close>\<close>

text \<open>
  \<^verbatim>\<open>
  chunks = []; sequence_number = 0
  while True:
      chunk = f.read(self.chunk_size)
      if not chunk: break
      chunks.append((sequence_number, chunk))
      sequence_number += 1
  return chunks
  \<close>
  The open file is the list of bytes not yet read; \<^verbatim>\<open>f.read(n)\<close> returns the next
  \<open>n\<close> bytes, fewer at the end of the file, and none once it is exhausted (or when
  \<open>n = 0\<close>).
\<close>

function split_file_loop :: "nat \<Rightarrow> bytes \<Rightarrow> int \<Rightarrow> (int \<times> bytes) list" where
  "split_file_loop chunk_size f sequence_number =
     (let chunk = take chunk_size f in
      if chunk = [] then []
      else (sequence_number, chunk)
             # split_file_loop chunk_size (drop chunk_size f) (sequence_number + 1))"
  by pat_completeness auto
termination
  by (relation "measure (\<lambda>(n, f, s). length f)") (auto simp: Let_def)

declare split_file_loop.simps [simp del]

definition split_file :: "nat \<Rightarrow> bytes \<Rightarrow> (int \<times> bytes) list" where
  "split_file chunk_size f = split_file_loop chunk_size f 0"

subsection \<open>The-Multi-Client-Mayhem: the split in \<^verbatim>\<open>handle_client\<close>\<close>

text \<open>
  \<^verbatim>\<open>
  chunks = []
  for i in range(0, len(file_data), CHUNK_SIZE):
      chunks.append(file_data[i:i+CHUNK_SIZE])
  \<close>
  \<^verbatim>\<open>range\<close> with step 0 raises \<^verbatim>\<open>ValueError\<close>. \<^verbatim>\<open>CHUNK_SIZE\<close> is the module constant
  1024; it is a parameter here.
\<close>

function py_range :: "nat \<Rightarrow> nat \<Rightarrow> nat \<Rightarrow> nat list" where
  "py_range i stop step =
     (if step = 0 \<or> stop \<le> i then [] else i # py_range (i + step) stop step)"
  by pat_completeness auto
termination
  by (relation "measure (\<lambda>(i, stop, step). stop - i)") auto

declare py_range.simps [simp del]

definition split_chunks :: "nat \<Rightarrow> bytes \<Rightarrow> py_error + bytes list" where
  "split_chunks CHUNK_SIZE file_data =
     (if CHUNK_SIZE = 0 then Inl ValueError
      else Inr (map (\<lambda>i. take CHUNK_SIZE (drop i file_data))
                    (py_range 0 (length file_data) CHUNK_SIZE)))"

text \<open>\<^verbatim>\<open>enumerate(chunks)\<close>, as the send loop of \<^verbatim>\<open>handle_client\<close> numbers the chunks.\<close>

definition enumerate_chunks :: "bytes list \<Rightarrow> (int \<times> bytes) list" where
  "enumerate_chunks chunks = zip (map int [0..<length chunks]) chunks"

section \<open>Reassembly\<close>

subsection \<open>first\_task: storing a chunk and \<^verbatim>\<open>FileTransferClient.save_file\<close>\<close>

text \<open>
  \<^verbatim>\<open>self.received_chunks[seq_num] = chunk_data\<close> stores unconditionally.
  \<^verbatim>\<open>
  sorted_keys = sorted(self.received_chunks.keys())
  with open(output_path, 'wb') as f:
      for seq_num in sorted_keys:
          f.write(self.received_chunks[seq_num])
  \<close>
  The value of \<open>save_file\<close> is the content of the file written.
\<close>

definition store_received :: "chunk_dict \<Rightarrow> int \<Rightarrow> bytes \<Rightarrow> chunk_dict" where
  "store_received received_chunks seq_num chunk_data =
     AList.update seq_num chunk_data received_chunks"

definition save_file :: "chunk_dict \<Rightarrow> bytes" where
  "save_file received_chunks =
     concat (map (\<lambda>seq_num. dict_get received_chunks seq_num)
                 (sort (dict_keys received_chunks)))"

subsection \<open>The-Multi-Client-Mayhem: storing a chunk and the reassembly in \<^verbatim>\<open>upload_file\<close>\<close>

text \<open>
  \<^verbatim>\<open>
  if sequence not in chunks:
      chunks[sequence] = data
  \<close>
  and, after the transfer,
  \<^verbatim>\<open>
  reassembled_data = b""
  for i in range(num_chunks):
      if i in chunks:
          reassembled_data += chunks[i]
  \<close>
\<close>

definition store_chunk :: "chunk_dict \<Rightarrow> int \<Rightarrow> bytes \<Rightarrow> chunk_dict" where
  "store_chunk chunks sequence data =
     (if sequence \<notin> set (dict_keys chunks) then AList.update sequence data chunks
      else chunks)"

definition reassemble :: "int \<Rightarrow> chunk_dict \<Rightarrow> bytes" where
  "reassemble num_chunks chunks =
     concat (map (\<lambda>i. if i \<in> set (dict_keys chunks) then dict_get chunks i else [])
                 (map int [0..<nat num_chunks]))"

text \<open>
  The buffer after the chunk messages \<open>arrivals\<close> have been stored, in their order of
  arrival, starting from the empty dictionary (both clients start from \<^verbatim>\<open>{}\<close>).
\<close>

definition received_after :: "(int \<times> bytes) list \<Rightarrow> chunk_dict" where
  "received_after arrivals =
     foldl (\<lambda>received_chunks (seq_num, chunk_data).
              store_received received_chunks seq_num chunk_data) [] arrivals"

definition chunks_after :: "(int \<times> bytes) list \<Rightarrow> chunk_dict" where
  "chunks_after arrivals =
     foldl (\<lambda>chunks (sequence, data). store_chunk chunks sequence data) [] arrivals"

section \<open>first\_task: the upload request and its \<^verbatim>\<open>latin1\<close> transport\<close>

text \<open>
  A Python \<^verbatim>\<open>str\<close> is a list of Unicode code points. \<^verbatim>\<open>bytes.decode('latin1')\<close> maps
  every byte to the code point of the same value and never fails;
  \<^verbatim>\<open>str.encode('latin1')\<close> maps the code points below 256 back and raises
  \<^verbatim>\<open>UnicodeEncodeError\<close> on any other.
\<close>

type_synonym py_str = "nat list"

definition decode_latin1 :: "bytes \<Rightarrow> py_str" where
  "decode_latin1 b = map of_char b"

definition encode_latin1 :: "py_str \<Rightarrow> py_error + bytes" where
  "encode_latin1 s =
     (if list_all (\<lambda>c. c < 256) s then Inr (map char_of s) else Inl UnicodeEncodeError)"

text \<open>
  The client's request (\<^verbatim>\<open>FileTransferClient.upload_file\<close>):
  \<^verbatim>\<open>
  upload_request = {'command': 'upload', 'file_path': file_path,
                    'file_data': file_data.decode('latin1')}
  \<close>
  and what the server does with it (\<^verbatim>\<open>FileTransferServer.handle_upload\<close>):
  \<^verbatim>\<open>
  file_path = request.get('file_path', ''); file_data = request.get('file_data', '')
  if not file_path or not file_data:
      self.send_response(client_socket, {'status': 'error', ...}); return
  with open(temp_file_path, 'wb') as f:
      f.write(file_data.encode('latin1'))
  \<close>
  The request travels as \<^verbatim>\<open>json.dumps(request).encode('utf-8')\<close> and is read back with
  \<^verbatim>\<open>json.loads\<close>; the library's round trip on a dictionary of strings is taken to be
  the identity, so the server sees the request the client built.
\<close>

record upload_request =
  rq_command :: string
  rq_file_path :: string
  rq_file_data :: py_str

definition make_upload_request :: "string \<Rightarrow> bytes \<Rightarrow> upload_request" where
  "make_upload_request path data =
     \<lparr>rq_command = ''upload'', rq_file_path = path, rq_file_data = decode_latin1 data\<rparr>"

text \<open>
  The content of the temporary file the server writes: \<open>None\<close> when the request is
  rejected with \<^verbatim>\<open>'Missing file path or file data'\<close> and nothing is written.
\<close>

definition handle_upload_write :: "upload_request \<Rightarrow> (py_error + bytes) option" where
  "handle_upload_write request =
     (if rq_file_path request = [] \<or> rq_file_data request = [] then None
      else Some (encode_latin1 (rq_file_data request)))"

section \<open>first\_task: the framing layer\<close>

text \<open>
  A connected socket, seen from the reader: the segments still to be delivered, in
  order. \<^verbatim>\<open>recv(bufsize)\<close> returns at most \<open>bufsize\<close> bytes of the next non-empty
  segment (so a message can arrive in several reads), and \<^verbatim>\<open>b''\<close> once the peer has
  closed and everything has been read. A \<^verbatim>\<open>recv\<close> that would block for ever on a silent
  peer is not represented: a socket always ends by being closed.
\<close>

type_synonym socket = "bytes list"

definition recv :: "nat \<Rightarrow> socket \<Rightarrow> bytes \<times> socket" where
  "recv bufsize sock =
     (case dropWhile (\<lambda>seg. seg = []) sock of
        [] \<Rightarrow> ([], [])
      | seg # rest \<Rightarrow>
          (take bufsize seg,
           if length seg \<le> bufsize then rest else drop bufsize seg # rest))"

text \<open>\<^verbatim>\<open>int.from_bytes(b, byteorder='big')\<close>, for any number of bytes.\<close>

definition from_bytes_big :: "bytes \<Rightarrow> nat" where
  "from_bytes_big b = foldl (\<lambda>acc byte. acc * 256 + of_char byte) 0 b"

text \<open>
  The read loop shared by \<^verbatim>\<open>receive_response\<close> and \<^verbatim>\<open>receive_request\<close>:
  \<^verbatim>\<open>
  while bytes_received < msg_len:
      chunk = sock.recv(min(msg_len - bytes_received, 4096))
      if not chunk:
          raise ConnectionError("Connection closed while receiving data")
      chunks.append(chunk)
      bytes_received += len(chunk)
  \<close>
  followed by \<^verbatim>\<open>b''.join(chunks)\<close>.
\<close>

function recv_loop :: "nat \<Rightarrow> nat \<Rightarrow> bytes list \<Rightarrow> socket \<Rightarrow> (py_error + bytes) \<times> socket" where
  "recv_loop msg_len bytes_received chunks sock =
     (if bytes_received < msg_len then
        (case recv (min (msg_len - bytes_received) 4096) sock of
           (chunk, sock') \<Rightarrow>
             if chunk = [] then (Inl ConnectionError, sock')
             else recv_loop msg_len (bytes_received + length chunk) (chunks @ [chunk]) sock')
      else (Inr (concat chunks), sock))"
  by pat_completeness auto
termination
  by (relation "measure (\<lambda>(msg_len, bytes_received, chunks, sock). msg_len - bytes_received)")
     (auto simp: neq_Nil_conv)

declare recv_loop.simps [simp del]

text \<open>
  \<^verbatim>\<open>FileTransferClient.receive_response\<close>, up to the joined payload (the caller then
  decodes it as UTF-8 and parses it as JSON):
  \<^verbatim>\<open>
  msg_len_bytes = self.socket.recv(4)
  if not msg_len_bytes:
      raise ConnectionError("Connection closed by server")
  msg_len = int.from_bytes(msg_len_bytes, byteorder='big')
  \<close>
\<close>

definition receive_response_payload :: "socket \<Rightarrow> (py_error + bytes) \<times> socket" where
  "receive_response_payload sock =
     (case recv 4 sock of
        (msg_len_bytes, sock') \<Rightarrow>
          if msg_len_bytes = [] then (Inl ConnectionError, sock')
          else recv_loop (from_bytes_big msg_len_bytes) 0 [] sock')"

text \<open>
  \<^verbatim>\<open>FileTransferServer.receive_request\<close>, up to the joined payload: the same without
  the test of \<^verbatim>\<open>msg_len_bytes\<close>.
  \<^verbatim>\<open>
  msg_len_bytes = client_socket.recv(4)
  msg_len = int.from_bytes(msg_len_bytes, byteorder='big')
  \<close>
\<close>

definition receive_request_payload :: "socket \<Rightarrow> (py_error + bytes) \<times> socket" where
  "receive_request_payload sock =
     (case recv 4 sock of
        (msg_len_bytes, sock') \<Rightarrow> recv_loop (from_bytes_big msg_len_bytes) 0 [] sock')"

section \<open>Text: the Python string operations the protocol uses\<close>

text \<open>
  The tokens of the protocol are ASCII, so a decoded \<^verbatim>\<open>str\<close> and its \<^verbatim>\<open>bytes\<close> are the
  same list of characters; \<^verbatim>\<open>.decode()\<close> and \<^verbatim>\<open>.encode()\<close> are the identity. (On
  bytes that are not valid UTF-8 \<^verbatim>\<open>.decode()\<close> raises \<^verbatim>\<open>UnicodeDecodeError\<close>, a
  \<^verbatim>\<open>ValueError\<close>; wherever the code decodes and then parses, the parse below raises
  \<^verbatim>\<open>ValueError\<close> on such bytes as well.)
\<close>

definition is_space :: "char \<Rightarrow> bool" where
  "is_space c = (c \<in> set [CHR '' '', CHR 0x09, CHR 0x0A, CHR 0x0B, CHR 0x0C, CHR 0x0D])"

definition is_digit :: "char \<Rightarrow> bool" where
  "is_digit c = (c \<in> set ''0123456789'')"

definition digit_val :: "char \<Rightarrow> nat" where
  "digit_val c = of_char c - 48"

definition strip :: "string \<Rightarrow> string" where
  "strip s = rev (dropWhile is_space (rev (dropWhile is_space s)))"

text \<open>
  \<^verbatim>\<open>int(s)\<close>: surrounding white space, an optional sign, decimal digits, single
  underscores between digits; anything else is a \<^verbatim>\<open>ValueError\<close>.
\<close>

fun parse_digits :: "nat \<Rightarrow> string \<Rightarrow> nat option" where
  "parse_digits acc [] = Some acc"
| "parse_digits acc [c] = (if is_digit c then Some (10 * acc + digit_val c) else None)"
| "parse_digits acc (c # d # cs) =
     (if is_digit c then parse_digits (10 * acc + digit_val c) (d # cs)
      else if c = CHR ''_'' \<and> is_digit d then parse_digits acc (d # cs)
      else None)"

definition parse_nat :: "string \<Rightarrow> nat option" where
  "parse_nat s = (case s of [] \<Rightarrow> None
                  | c # _ \<Rightarrow> if is_digit c then parse_digits 0 s else None)"

definition py_int :: "string \<Rightarrow> py_error + int" where
  "py_int s =
     (case strip s of
        [] \<Rightarrow> Inl ValueError
      | c # cs \<Rightarrow>
          if c = CHR ''-'' then
            (case parse_nat cs of None \<Rightarrow> Inl ValueError | Some n \<Rightarrow> Inr (- int n))
          else if c = CHR ''+'' then
            (case parse_nat cs of None \<Rightarrow> Inl ValueError | Some n \<Rightarrow> Inr (int n))
          else
            (case parse_nat (c # cs) of None \<Rightarrow> Inl ValueError | Some n \<Rightarrow> Inr (int n)))"

text \<open>\<^verbatim>\<open>str(i)\<close> for an integer.\<close>

function decimal :: "nat \<Rightarrow> string" where
  "decimal n =
     (if n < 10 then [''0123456789'' ! n]
      else decimal (n div 10) @ [''0123456789'' ! (n mod 10)])"
  by pat_completeness auto
termination
  by (relation "measure id") auto

declare decimal.simps [simp del]

definition str_int :: "int \<Rightarrow> string" where
  "str_int i = (if i < 0 then CHR ''-'' # decimal (nat (- i)) else decimal (nat i))"

text \<open>\<^verbatim>\<open>s.startswith(p)\<close> and \<^verbatim>\<open>s.split(sep)\<close> for a one-character separator.\<close>

definition startswith :: "string \<Rightarrow> string \<Rightarrow> bool" where
  "startswith s p = (take (length p) s = p)"

fun split_on :: "char \<Rightarrow> string \<Rightarrow> string list" where
  "split_on sep [] = [[]]"
| "split_on sep (c # cs) =
     (if c = sep then [] # split_on sep cs
      else (case split_on sep cs of w # ws \<Rightarrow> (c # w) # ws | [] \<Rightarrow> [[c]]))"

text \<open>
  \<^verbatim>\<open>bytes.hex()\<close> and \<^verbatim>\<open>bytes.fromhex(s)\<close>: two hexadecimal digits per byte, either
  case accepted, white space allowed between bytes, \<^verbatim>\<open>ValueError\<close> otherwise.
\<close>

definition hex_digit :: "nat \<Rightarrow> char" where
  "hex_digit k = ''0123456789abcdef'' ! k"

definition hex_val :: "char \<Rightarrow> nat option" where
  "hex_val c =
     (let n = (of_char c :: nat) in
      if 48 \<le> n \<and> n \<le> 57 then Some (n - 48)
      else if 97 \<le> n \<and> n \<le> 102 then Some (n - 87)
      else if 65 \<le> n \<and> n \<le> 70 then Some (n - 55)
      else None)"

definition hex :: "bytes \<Rightarrow> string" where
  "hex b = concat (map (\<lambda>byte. [hex_digit (of_char byte div 16),
                                  hex_digit (of_char byte mod 16)]) b)"

fun fromhex :: "string \<Rightarrow> py_error + bytes" where
  "fromhex [] = Inr []"
| "fromhex [c] = (if is_space c then Inr [] else Inl ValueError)"
| "fromhex (c # d # cs) =
     (if is_space c then fromhex (d # cs)
      else (case (hex_val c, hex_val d) of
              (Some h, Some l) \<Rightarrow>
                (case fromhex cs of
                   Inl e \<Rightarrow> Inl e
                 | Inr b \<Rightarrow> Inr (char_of (16 * h + l) # b))
            | _ \<Rightarrow> Inl ValueError))"

text \<open>
  \<^verbatim>\<open>chunks[seq_num]\<close>: an index from \<open>-len\<close> up to \<open>len - 1\<close> is valid, the
  negative ones counting back from the end of the list; any other raises
  \<^verbatim>\<open>IndexError\<close>.
\<close>

definition py_index :: "'a list \<Rightarrow> int \<Rightarrow> py_error + 'a" where
  "py_index xs i =
     (if 0 \<le> i \<and> i < int (length xs) then Inr (xs ! nat i)
      else if i < 0 \<and> - int (length xs) \<le> i then Inr (xs ! nat (int (length xs) + i))
      else Inl IndexError)"

section \<open>Library functions taken as parameters\<close>

text \<open>
  The digests (\<^verbatim>\<open>hashlib.md5(...).hexdigest()\<close>, \<^verbatim>\<open>hashlib.sha256(...).hexdigest()\<close>)
  and the JSON codec are library code; the programs are modelled for any such
  functions. A chunk message of The-Multi-Client-Mayhem is a JSON object with the keys
  \<^verbatim>\<open>sequence\<close>, \<^verbatim>\<open>client_id\<close>, \<^verbatim>\<open>data\<close> (hexadecimal) and \<^verbatim>\<open>chunk_checksum\<close>;
  \<open>loads_chunk\<close> stands for \<^verbatim>\<open>json.loads(raw.decode())\<close> followed by the four key
  lookups: \<^verbatim>\<open>JSONDecodeError\<close> when the text is not JSON, another error when it is JSON
  of another shape.

  A frame of first\_task is a JSON object read with \<^verbatim>\<open>.get\<close>: \<open>Ready\<close> is an object
  whose \<^verbatim>\<open>status\<close> is \<^verbatim>\<open>'ready'\<close>, with its \<^verbatim>\<open>checksum\<close> and \<^verbatim>\<open>total_chunks\<close>; \<open>ChunkMsg\<close>
  one whose \<^verbatim>\<open>type\<close> is \<^verbatim>\<open>'chunk'\<close>, with its \<^verbatim>\<open>sequence\<close>, its \<^verbatim>\<open>data\<close> and, if the
  object has one, its \<^verbatim>\<open>chunk_checksum\<close> (the first\_task server sends none, and the
  first\_task client reads none); \<open>EndMsg\<close> one whose \<^verbatim>\<open>type\<close> is \<^verbatim>\<open>'end'\<close>;
  \<open>OtherMsg\<close> any other object (a \<^verbatim>\<open>status\<close> that is not \<^verbatim>\<open>'ready'\<close>, no known
  \<^verbatim>\<open>type\<close>).
\<close>

record chunk_info =
  ci_sequence :: int
  ci_client_id :: string
  ci_data :: string
  ci_checksum :: string

datatype response =
    Ready string int
  | ChunkMsg int string "string option"
  | EndMsg
  | OtherMsg

record pylib =
  md5_hexdigest :: "bytes \<Rightarrow> string"
  sha256_hexdigest :: "bytes \<Rightarrow> string"
  loads_chunk :: "bytes \<Rightarrow> py_error + chunk_info"
  dumps_chunk :: "chunk_info \<Rightarrow> bytes"
  loads_response :: "bytes \<Rightarrow> py_error + response"

section \<open>The-Multi-Client-Mayhem: the client (\<^verbatim>\<open>upload_file\<close>)\<close>

text \<open>
  The client's view of its connection: \<open>c_inbox\<close> is what the server still has to
  deliver, \<open>c_outbox\<close> what the client has sent so far (oldest first), \<open>c_chunks\<close> the
  dictionary \<^verbatim>\<open>chunks\<close>, \<open>c_saved\<close> the content of the \<^verbatim>\<open>_received\<close> file once it is
  written. \<^verbatim>\<open>sendall\<close> always succeeds.
\<close>

record client_state =
  c_inbox :: socket
  c_outbox :: "bytes list"
  c_chunks :: chunk_dict
  c_saved :: "bytes option"

definition sendall :: "bytes \<Rightarrow> client_state \<Rightarrow> client_state" where
  "sendall msg st = st\<lparr>c_outbox := c_outbox st @ [msg]\<rparr>"

definition client_recv :: "nat \<Rightarrow> client_state \<Rightarrow> bytes \<times> client_state" where
  "client_recv bufsize st =
     (case recv bufsize (c_inbox st) of (msg, rest) \<Rightarrow> (msg, st\<lparr>c_inbox := rest\<rparr>))"

datatype loop_ctl = Continue | Break

text \<open>
  The body of the inner \<^verbatim>\<open>try\<close> once the chunk message is decoded:
  \<^verbatim>\<open>
  if hashlib.md5(data).hexdigest() != chunk_checksum:
      client.sendall(f"RETRANSMIT:{sequence}".encode())
      continue
  if sequence not in chunks:
      chunks[sequence] = data
  client.sendall(b"OK")
  if len(chunks) == num_chunks:
      break
  \<close>
\<close>

definition process_chunk ::
  "pylib \<Rightarrow> int \<Rightarrow> int \<Rightarrow> bytes \<Rightarrow> string \<Rightarrow> client_state \<Rightarrow> loop_ctl \<times> client_state" where
  "process_chunk L num_chunks sequence data chunk_checksum st =
     (if md5_hexdigest L data \<noteq> chunk_checksum then
        (Continue, sendall (''RETRANSMIT:'' @ str_int sequence) st)
      else
        let st1 = st\<lparr>c_chunks := store_chunk (c_chunks st) sequence data\<rparr>;
            st2 = sendall ''OK'' st1
        in if int (length (c_chunks st2)) = num_chunks then (Break, st2)
           else (Continue, st2))"

text \<open>
  One iteration of the receive loop:
  \<^verbatim>\<open>
  try:
      chunk_len_data = client.recv(1024)
      if chunk_len_data == b"TRANSFER_COMPLETE": break
      chunk_len = int(chunk_len_data.decode())
      client.sendall(b"OK")
      chunk_json_data = client.recv(chunk_len)
      try:
          chunk_info = json.loads(chunk_json_data.decode())
          sequence = chunk_info["sequence"]; client_id = chunk_info["client_id"]
          data = bytes.fromhex(chunk_info["data"])
          chunk_checksum = chunk_info["chunk_checksum"]
          ...
      except json.JSONDecodeError:
          client.sendall(b"RETRANSMIT:LAST")
          continue
  except Exception as e:
      client.sendall(b"ERROR")
      break
  \<close>
  \<^verbatim>\<open>recv\<close> with a negative size raises \<^verbatim>\<open>ValueError\<close>.
\<close>

definition receive_iteration :: "pylib \<Rightarrow> int \<Rightarrow> client_state \<Rightarrow> loop_ctl \<times> client_state" where
  "receive_iteration L num_chunks st =
     (case client_recv 1024 st of
        (chunk_len_data, st1) \<Rightarrow>
          if chunk_len_data = ''TRANSFER_COMPLETE'' then (Break, st1)
          else
            (case py_int chunk_len_data of
               Inl e \<Rightarrow> (Break, sendall ''ERROR'' st1)
             | Inr chunk_len \<Rightarrow>
                 let st2 = sendall ''OK'' st1 in
                 if chunk_len < 0 then (Break, sendall ''ERROR'' st2)
                 else
                   (case client_recv (nat chunk_len) st2 of
                      (chunk_json_data, st3) \<Rightarrow>
                        (case loads_chunk L chunk_json_data of
                           Inl e \<Rightarrow>
                             if e = JSONDecodeError
                             then (Continue, sendall ''RETRANSMIT:LAST'' st3)
                             else (Break, sendall ''ERROR'' st3)
                         | Inr chunk_info \<Rightarrow>
                             (case fromhex (ci_data chunk_info) of
                                Inl e \<Rightarrow> (Break, sendall ''ERROR'' st3)
                              | Inr data \<Rightarrow>
                                  process_chunk L num_chunks (ci_sequence chunk_info) data
                                    (ci_checksum chunk_info) st3)))))"

text \<open>
  \<^verbatim>\<open>for _ in range(num_chunks * 2):\<close> with the body above. The first component of the
  result counts the iterations that were executed; the second argument is the number of
  iterations \<^verbatim>\<open>range\<close> still has to offer.
\<close>

fun receive_loop :: "pylib \<Rightarrow> int \<Rightarrow> nat \<Rightarrow> client_state \<Rightarrow> nat \<times> client_state" where
  "receive_loop L num_chunks 0 st = (0, st)"
| "receive_loop L num_chunks (Suc remaining) st =
     (case receive_iteration L num_chunks st of
        (Break, st') \<Rightarrow> (1, st')
      | (Continue, st') \<Rightarrow>
          (case receive_loop L num_chunks remaining st' of
             (iterations, st'') \<Rightarrow> (Suc iterations, st'')))"

text \<open>
  After the loop:
  \<^verbatim>\<open>
  final_msg = client.recv(1024)
  if final_msg == b"TRANSFER_COMPLETE":
      reassembled_data = ...
      reassembled_checksum = calculate_checksum(reassembled_data)
      if reassembled_checksum == server_checksum:
          with open(output_path, 'wb') as f: f.write(reassembled_data)
          client.sendall(b"SUCCESS")
      else:
          client.sendall(b"CHECKSUM_MISMATCH")
  else:
      client.sendall(b"ERROR")
  \<close>
\<close>

definition finalize :: "pylib \<Rightarrow> string \<Rightarrow> int \<Rightarrow> client_state \<Rightarrow> client_state" where
  "finalize L server_checksum num_chunks st =
     (case client_recv 1024 st of
        (final_msg, st1) \<Rightarrow>
          if final_msg = ''TRANSFER_COMPLETE'' then
            let reassembled_data = reassemble num_chunks (c_chunks st1);
                reassembled_checksum = sha256_hexdigest L reassembled_data
            in if reassembled_checksum = server_checksum
               then sendall ''SUCCESS'' (st1\<lparr>c_saved := Some reassembled_data\<rparr>)
               else sendall ''CHECKSUM_MISMATCH'' st1
          else sendall ''ERROR'' st1)"

text \<open>
  The whole of \<^verbatim>\<open>upload_file\<close> after the connection is made: the file size, the file,
  the server's checksum against the local one, the number of chunks, the receive loop and
  the final verdict. An exception outside the loop (\<^verbatim>\<open>int\<close> of a malformed chunk count)
  ends the function through the outer \<^verbatim>\<open>except\<close>, with nothing more sent.
\<close>

definition mayhem_upload_file :: "pylib \<Rightarrow> bytes \<Rightarrow> socket \<Rightarrow> client_state" where
  "mayhem_upload_file L file_data sock =
     (let st0 = sendall (str_int (int (length file_data)))
                  \<lparr>c_inbox = sock, c_outbox = [], c_chunks = [], c_saved = None\<rparr>
      in case client_recv 1024 st0 of
        (ack, st1) \<Rightarrow>
          let st2 = sendall file_data st1 in
          (case client_recv 1024 st2 of
             (server_checksum, st3) \<Rightarrow>
               let local_checksum = sha256_hexdigest L file_data in
               if server_checksum \<noteq> local_checksum then st3
               else
                 (case client_recv 1024 st3 of
                    (num_chunks_data, st4) \<Rightarrow>
                      (case py_int num_chunks_data of
                         Inl e \<Rightarrow> st4
                       | Inr num_chunks \<Rightarrow>
                           let st5 = sendall ''OK'' st4 in
                           (case receive_loop L num_chunks (nat (num_chunks * 2)) st5 of
                              (iterations, st6) \<Rightarrow>
                                finalize L server_checksum num_chunks st6)))))"

section \<open>The-Multi-Client-Mayhem: the server's send loop (\<^verbatim>\<open>handle_client\<close>)\<close>

text \<open>
  The number of bytes a socket still has to deliver; every \<^verbatim>\<open>recv\<close> that returns
  something takes it from there.
\<close>

definition sock_size :: "socket \<Rightarrow> nat" where
  "sock_size sock = sum_list (map length sock)"

lemma recv_size:
  "recv bufsize sock = (msg, rest) \<Longrightarrow> sock_size rest + length msg = sock_size sock"
proof -
  have dw: "sum_list (map length (dropWhile (\<lambda>seg. seg = []) s)) = sum_list (map length s)"
    for s :: socket
    by (induction s) auto
  assume r: "recv bufsize sock = (msg, rest)"
  show ?thesis
  proof (cases "dropWhile (\<lambda>seg. seg = []) sock")
    case Nil
    with r dw [of sock] show ?thesis by (simp add: recv_def sock_size_def)
  next
    case (Cons seg segs)
    with r dw [of sock] show ?thesis
      by (auto simp: recv_def sock_size_def split: if_splits)
  qed
qed

record server_state =
  s_inbox :: socket
  s_outbox :: "bytes list"

definition conn_sendall :: "bytes \<Rightarrow> server_state \<Rightarrow> server_state" where
  "conn_sendall msg sv = sv\<lparr>s_outbox := s_outbox sv @ [msg]\<rparr>"

definition conn_recv :: "nat \<Rightarrow> server_state \<Rightarrow> bytes \<times> server_state" where
  "conn_recv bufsize sv =
     (case recv bufsize (s_inbox sv) of (msg, rest) \<Rightarrow> (msg, sv\<lparr>s_inbox := rest\<rparr>))"

text \<open>
  The chunk message:
  \<^verbatim>\<open>
  chunk_data = {"sequence": i, "client_id": client_id, "data": chunk.hex(),
                "chunk_checksum": hashlib.md5(chunk).hexdigest()}
  json_data = json.dumps(chunk_data).encode()
  \<close>
\<close>

definition chunk_message :: "pylib \<Rightarrow> string \<Rightarrow> int \<Rightarrow> bytes \<Rightarrow> string \<Rightarrow> bytes" where
  "chunk_message L client_id i chunk checksum =
     dumps_chunk L \<lparr>ci_sequence = i, ci_client_id = client_id,
                    ci_data = hex chunk, ci_checksum = checksum\<rparr>"

text \<open>\<^verbatim>\<open>seq_num = int(ack.split(":")[1])\<close>\<close>

definition retransmit_seq_num :: "string \<Rightarrow> py_error + int" where
  "retransmit_seq_num ack =
     (case split_on CHR '':'' ack of
        p0 # p1 # ps \<Rightarrow> py_int p1
      | _ \<Rightarrow> Inl IndexError)"

text \<open>
  The retransmission loop, entered with the acknowledgement of the chunk just sent:
  \<^verbatim>\<open>
  while ack.startswith("RETRANSMIT"):
      seq_num = int(ack.split(":")[1])
      chunk_to_resend = chunks[seq_num]
      chunk_data = {...}; json_data = json.dumps(chunk_data).encode()
      conn.sendall(str(len(json_data)).encode())
      conn.recv(1024)
      conn.sendall(json_data)
      ack = conn.recv(1024).decode()
  \<close>
  The result is the exception that left the loop, if any, and the connection.
\<close>

function retransmit_loop ::
  "pylib \<Rightarrow> string \<Rightarrow> bytes list \<Rightarrow> string \<Rightarrow> server_state \<Rightarrow> py_error option \<times> server_state" where
  "retransmit_loop L client_id chunks ack sv =
     (if startswith ack ''RETRANSMIT'' then
        (case retransmit_seq_num ack of
           Inl e \<Rightarrow> (Some e, sv)
         | Inr seq_num \<Rightarrow>
             (case py_index chunks seq_num of
                Inl e \<Rightarrow> (Some e, sv)
              | Inr chunk_to_resend \<Rightarrow>
                  (case conn_recv 1024
                          (conn_sendall
                             (str_int (int (length
                                (chunk_message L client_id seq_num chunk_to_resend
                                   (md5_hexdigest L chunk_to_resend))))) sv) of
                     (ack_len, sv2) \<Rightarrow>
                       (case conn_recv 1024
                               (conn_sendall
                                  (chunk_message L client_id seq_num chunk_to_resend
                                     (md5_hexdigest L chunk_to_resend)) sv2) of
                          (ack', sv4) \<Rightarrow> retransmit_loop L client_id chunks ack' sv4))))
      else (None, sv))"
  by pat_completeness auto
termination
proof (relation "measure (\<lambda>(L, client_id, chunks, ack, sv).
                   sock_size (s_inbox sv) + length ack)", goal_cases)
  case 1
  show ?case by simp
next
  case (2 L client_id chunks ack sv seq_num chunk_to_resend ack_len sv2 ack' sv4)
  from 2(1) have "ack \<noteq> []" by (auto simp: startswith_def)
  moreover from 2(4) have "sock_size (s_inbox sv2) \<le> sock_size (s_inbox sv)"
    using recv_size [of 1024 "s_inbox sv"]
    by (auto simp: conn_recv_def conn_sendall_def split: prod.splits)
  moreover from 2(5) have "sock_size (s_inbox sv4) + length ack' = sock_size (s_inbox sv2)"
    using recv_size [of 1024 "s_inbox sv2"]
    by (auto simp: conn_recv_def conn_sendall_def split: prod.splits)
  ultimately show ?case by (cases ack) auto
qed

declare retransmit_loop.simps [simp del]

text \<open>
  The outcome of the fault simulation for one chunk: \<^verbatim>\<open>random.random() < ERROR_RATE\<close>
  and, if so, \<^verbatim>\<open>random.choice(["drop", "corrupt"])\<close>. The random draws are an input,
  one outcome per chunk; a list that is too short is continued with \<open>NoFault\<close>.
\<close>

datatype fault = NoFault | DropPacket | CorruptPacket

text \<open>
  The send loop over \<^verbatim>\<open>enumerate(chunks)\<close>:
  \<^verbatim>\<open>
  if error_type == "drop": continue
  elif error_type == "corrupt": chunk_data["chunk_checksum"] = "corrupted_checksum"
  conn.sendall(str(len(json_data)).encode())
  conn.recv(1024)
  conn.sendall(json_data)
  ack = conn.recv(1024).decode()
  while ack.startswith("RETRANSMIT"): ...
  \<close>
\<close>

fun send_chunks ::
  "pylib \<Rightarrow> string \<Rightarrow> bytes list \<Rightarrow> (int \<times> bytes \<times> fault) list \<Rightarrow> server_state
     \<Rightarrow> py_error option \<times> server_state" where
  "send_chunks L client_id chunks [] sv = (None, sv)"
| "send_chunks L client_id chunks ((i, chunk, error_type) # todo) sv =
     (if error_type = DropPacket then send_chunks L client_id chunks todo sv
      else
        let json_data = chunk_message L client_id i chunk
                          (if error_type = CorruptPacket then ''corrupted_checksum''
                           else md5_hexdigest L chunk)
        in (case conn_recv 1024 (conn_sendall (str_int (int (length json_data))) sv) of
              (ack_len, sv2) \<Rightarrow>
                (case conn_recv 1024 (conn_sendall json_data sv2) of
                   (ack, sv4) \<Rightarrow>
                     (case retransmit_loop L client_id chunks ack sv4 of
                        (Some e, sv5) \<Rightarrow> (Some e, sv5)
                      | (None, sv5) \<Rightarrow> send_chunks L client_id chunks todo sv5))))"

text \<open>
  \<^verbatim>\<open>handle_client\<close> from the split on: the chunk count, the chunks, then
  \<^verbatim>\<open>
  conn.sendall(b"TRANSFER_COMPLETE")
  result = conn.recv(1024).decode()
  \<close>
  Any exception is caught by \<^verbatim>\<open>except Exception\<close>, which prints it; \<^verbatim>\<open>finally\<close> closes
  the connection. The chunk size 0 makes \<^verbatim>\<open>range\<close> raise before anything is sent.
\<close>

definition send_file_back ::
  "pylib \<Rightarrow> nat \<Rightarrow> string \<Rightarrow> bytes \<Rightarrow> fault list \<Rightarrow> server_state
     \<Rightarrow> py_error option \<times> server_state" where
  "send_file_back L CHUNK_SIZE client_id file_data faults sv =
     (case split_chunks CHUNK_SIZE file_data of
        Inl e \<Rightarrow> (Some e, sv)
      | Inr chunks \<Rightarrow>
          (case conn_recv 1024 (conn_sendall (str_int (int (length chunks))) sv) of
             (ack, sv2) \<Rightarrow>
               (case send_chunks L client_id chunks
                       (zip (map int [0..<length chunks])
                            (zip chunks (faults @ replicate (length chunks) NoFault))) sv2 of
                  (Some e, sv3) \<Rightarrow> (Some e, sv3)
                | (None, sv3) \<Rightarrow>
                    (case conn_recv 1024 (conn_sendall ''TRANSFER_COMPLETE'' sv3) of
                       (result, sv5) \<Rightarrow> (None, sv5)))))"

section \<open>first\_task: the client (\<^verbatim>\<open>FileTransferClient.upload_file\<close>)\<close>

text \<open>
  \<^verbatim>\<open>receive_response\<close>: the payload of the next frame, decoded and parsed.
\<close>

definition receive_response :: "pylib \<Rightarrow> socket \<Rightarrow> (py_error + response) \<times> socket" where
  "receive_response L sock =
     (case receive_response_payload sock of
        (Inl e, sock') \<Rightarrow> (Inl e, sock')
      | (Inr payload, sock') \<Rightarrow> (loads_response L payload, sock'))"

lemma recv_loop_size:
  "recv_loop msg_len bytes_received chunks sock = (r, sock') \<Longrightarrow>
   sock_size sock' \<le> sock_size sock"
proof (induction msg_len bytes_received chunks sock rule: recv_loop.induct)
  case (1 msg_len bytes_received chunks sock)
  show ?case
  proof (cases "bytes_received < msg_len")
    case False
    with "1.prems" show ?thesis
      by (simp add: recv_loop.simps [of msg_len bytes_received chunks sock])
  next
    case True
    obtain chunk s where r: "recv (min (msg_len - bytes_received) 4096) sock = (chunk, s)"
      by (cases "recv (min (msg_len - bytes_received) 4096) sock")
    from recv_size [OF r] have le: "sock_size s \<le> sock_size sock" by simp
    show ?thesis
    proof (cases "chunk = []")
      case True
      with "1.prems" \<open>bytes_received < msg_len\<close> r le show ?thesis
        by (simp add: recv_loop.simps [of msg_len bytes_received chunks sock])
    next
      case False
      with "1.prems" True r
      have "recv_loop msg_len (bytes_received + length chunk) (chunks @ [chunk]) s = (r, sock')"
        by (simp add: recv_loop.simps [of msg_len bytes_received chunks sock])
      from "1.IH" [OF True r [symmetric] False this] le show ?thesis by simp
    qed
  qed
qed

lemma receive_response_size:
  assumes "receive_response L sock = (Inr response, sock')"
  shows "sock_size sock' < sock_size sock"
proof -
  obtain msg_len_bytes s1 where r: "recv 4 sock = (msg_len_bytes, s1)"
    by (cases "recv 4 sock")
  from assms r have ne: "msg_len_bytes \<noteq> []"
    by (auto simp: receive_response_def receive_response_payload_def)
  with recv_size [OF r] have lt: "sock_size s1 < sock_size sock"
    by (cases msg_len_bytes) auto
  obtain res where "recv_loop (from_bytes_big msg_len_bytes) 0 [] s1 = (res, sock')"
    using assms r ne
    by (auto simp: receive_response_def receive_response_payload_def split: prod.splits sum.splits)
  from recv_loop_size [OF this] lt show ?thesis by simp
qed

text \<open>
  The receive loop:
  \<^verbatim>\<open>
  while True:
      chunk_response = self.receive_response()
      if chunk_response.get('type') == 'end': break
      if chunk_response.get('type') == 'chunk':
          seq_num = chunk_response.get('sequence')
          chunk_data = bytes.fromhex(chunk_response.get('data'))
          self.received_chunks[seq_num] = chunk_data
  \<close>
  An exception (\<^verbatim>\<open>ConnectionError\<close> from \<^verbatim>\<open>receive_response\<close>, a parse error, a
  \<^verbatim>\<open>ValueError\<close> from \<^verbatim>\<open>fromhex\<close>) leaves the loop and the function.
\<close>

function receive_chunks ::
  "pylib \<Rightarrow> chunk_dict \<Rightarrow> socket \<Rightarrow> (py_error + chunk_dict) \<times> socket" where
  "receive_chunks L received_chunks sock =
     (case receive_response L sock of
        (Inl e, sock') \<Rightarrow> (Inl e, sock')
      | (Inr chunk_response, sock') \<Rightarrow>
          (case chunk_response of
             EndMsg \<Rightarrow> (Inr received_chunks, sock')
           | ChunkMsg seq_num data_hex extra \<Rightarrow>
               (case fromhex data_hex of
                  Inl e \<Rightarrow> (Inl e, sock')
                | Inr chunk_data \<Rightarrow>
                    receive_chunks L (store_received received_chunks seq_num chunk_data) sock')
           | Ready c t \<Rightarrow> receive_chunks L received_chunks sock'
           | OtherMsg \<Rightarrow> receive_chunks L received_chunks sock'))"
  by pat_completeness auto
termination
  by (relation "measure (\<lambda>(L, received_chunks, sock). sock_size sock)")
     (auto dest: receive_response_size [OF sym])

declare receive_chunks.simps [simp del]

text \<open>
  One pass of \<^verbatim>\<open>upload_file\<close>, from the upload request to the place where the function
  returns or calls itself again. \<open>Verified\<close>: \<^verbatim>\<open>return True\<close>. \<open>Aborted\<close>: a
  \<^verbatim>\<open>return False\<close> before any chunk is checked (the status is not \<^verbatim>\<open>'ready'\<close>, or an
  exception). \<open>MissingChunks\<close> and \<open>ChecksumFailed\<close>: the two places that run
  \<^verbatim>\<open>
  if self.retry_count < self.max_retries:
      self.retry_count += 1
      return self.upload_file(file_path)
  else:
      return False
  \<close>
  namely after \<^verbatim>\<open>len(self.received_chunks) != total_chunks\<close> and after
  \<^verbatim>\<open>reassembled_checksum != server_checksum\<close>. The file \<^verbatim>\<open>received_<name>\<close> is written
  by \<^verbatim>\<open>save_file\<close> before the checksum is compared; \<open>a_file\<close> is its content when this
  pass wrote it.
\<close>

datatype attempt_outcome = Verified | Aborted | MissingChunks | ChecksumFailed

record attempt =
  a_outcome :: attempt_outcome
  a_sock :: socket
  a_received :: chunk_dict
  a_file :: "bytes option"

definition upload_attempt :: "pylib \<Rightarrow> socket \<Rightarrow> attempt" where
  "upload_attempt L sock =
     (case receive_response L sock of
        (Inl e, sock1) \<Rightarrow>
          \<lparr>a_outcome = Aborted, a_sock = sock1, a_received = [], a_file = None\<rparr>
      | (Inr response, sock1) \<Rightarrow>
          (case response of
             Ready server_checksum total_chunks \<Rightarrow>
               (case receive_chunks L [] sock1 of
                  (Inl e, sock2) \<Rightarrow>
                    \<lparr>a_outcome = Aborted, a_sock = sock2, a_received = [], a_file = None\<rparr>
                | (Inr received_chunks, sock2) \<Rightarrow>
                    if int (length received_chunks) \<noteq> total_chunks then
                      \<lparr>a_outcome = MissingChunks, a_sock = sock2,
                       a_received = received_chunks, a_file = None\<rparr>
                    else if sha256_hexdigest L (save_file received_chunks) = server_checksum then
                      \<lparr>a_outcome = Verified, a_sock = sock2,
                       a_received = received_chunks, a_file = Some (save_file received_chunks)\<rparr>
                    else
                      \<lparr>a_outcome = ChecksumFailed, a_sock = sock2,
                       a_received = received_chunks, a_file = Some (save_file received_chunks)\<rparr>)
           | _ \<Rightarrow> \<lparr>a_outcome = Aborted, a_sock = sock1, a_received = [], a_file = None\<rparr>))"

text \<open>
  \<^verbatim>\<open>upload_file\<close> with its retries. The result records the value returned, the number
  of passes made, the final \<^verbatim>\<open>retry_count\<close>, the outcome of the last pass and the
  content of \<^verbatim>\<open>received_<name>\<close> as the last write left it.
\<close>

record upload_result =
  u_returned :: bool
  u_passes :: nat
  u_retry_count :: int
  u_last :: attempt_outcome
  u_file :: "bytes option"

function first_task_upload_file ::
  "pylib \<Rightarrow> int \<Rightarrow> int \<Rightarrow> bytes option \<Rightarrow> socket \<Rightarrow> upload_result" where
  "first_task_upload_file L max_retries retry_count file sock =
     (let a = upload_attempt L sock;
          file' = (case a_file a of None \<Rightarrow> file | Some content \<Rightarrow> Some content)
      in if a_outcome a = Verified then
           \<lparr>u_returned = True, u_passes = 1, u_retry_count = retry_count,
            u_last = Verified, u_file = file'\<rparr>
         else if a_outcome a = Aborted then
           \<lparr>u_returned = False, u_passes = 1, u_retry_count = retry_count,
            u_last = Aborted, u_file = file'\<rparr>
         else if retry_count < max_retries then
           (let r = first_task_upload_file L max_retries (retry_count + 1) file' (a_sock a)
            in r\<lparr>u_passes := Suc (u_passes r)\<rparr>)
         else
           \<lparr>u_returned = False, u_passes = 1, u_retry_count = retry_count,
            u_last = a_outcome a, u_file = file'\<rparr>)"
  by pat_completeness auto
termination
  by (relation "measure (\<lambda>(L, max_retries, retry_count, file, sock).
                  nat (max_retries - retry_count))") auto

declare first_task_upload_file.simps [simp del]

section \<open>A concrete instance of the library parameters\<close>

text \<open>
  To run the programs on concrete inputs the library parameters need values. In
  \<open>demo_lib\<close> both digests are the identity (a digest without collisions), and a message
  is a list of fields separated by colons in place of a JSON object: a chunk message of
  The-Multi-Client-Mayhem is \<^verbatim>\<open><sequence>:<hex data>:<checksum>\<close>; a frame of first\_task
  is \<^verbatim>\<open>R:<checksum>:<total>\<close>, \<^verbatim>\<open>C:<sequence>:<hex data>\<close> (with an optional
  \<^verbatim>\<open>:<checksum>\<close>), or \<^verbatim>\<open>E\<close>. Text that does not parse is a \<^verbatim>\<open>JSONDecodeError\<close>.
\<close>

definition demo_loads_chunk :: "bytes \<Rightarrow> py_error + chunk_info" where
  "demo_loads_chunk raw =
     (case split_on CHR '':'' raw of
        [s, h, c] \<Rightarrow>
          (case py_int s of
             Inl e \<Rightarrow> Inl JSONDecodeError
           | Inr i \<Rightarrow> Inr \<lparr>ci_sequence = i, ci_client_id = [], ci_data = h, ci_checksum = c\<rparr>)
      | _ \<Rightarrow> Inl JSONDecodeError)"

definition demo_dumps_chunk :: "chunk_info \<Rightarrow> bytes" where
  "demo_dumps_chunk info =
     str_int (ci_sequence info) @ '':'' @ ci_data info @ '':'' @ ci_checksum info"

definition demo_loads_response :: "bytes \<Rightarrow> py_error + response" where
  "demo_loads_response raw =
     (case split_on CHR '':'' raw of
        [''E''] \<Rightarrow> Inr EndMsg
      | [''R'', c, t] \<Rightarrow>
          (case py_int t of Inl e \<Rightarrow> Inl JSONDecodeError | Inr n \<Rightarrow> Inr (Ready c n))
      | [''C'', s, h] \<Rightarrow>
          (case py_int s of Inl e \<Rightarrow> Inl JSONDecodeError | Inr i \<Rightarrow> Inr (ChunkMsg i h None))
      | [''C'', s, h, c] \<Rightarrow>
          (case py_int s of Inl e \<Rightarrow> Inl JSONDecodeError | Inr i \<Rightarrow> Inr (ChunkMsg i h (Some c)))
      | _ \<Rightarrow> Inl JSONDecodeError)"

definition demo_lib :: pylib where
  "demo_lib =
     \<lparr>md5_hexdigest = (\<lambda>b. b), sha256_hexdigest = (\<lambda>b. b),
      loads_chunk = demo_loads_chunk, dumps_chunk = demo_dumps_chunk,
      loads_response = demo_loads_response\<rparr>"

section \<open>Properties of the split\<close>

lemma split_file_loop_stop:
  "take n f = [] \<Longrightarrow> split_file_loop n f s = []"
  by (simp add: split_file_loop.simps [of n f s])

lemma split_file_loop_step:
  "take n f \<noteq> [] \<Longrightarrow>
   split_file_loop n f s = (s, take n f) # split_file_loop n (drop n f) (s + 1)"
  by (simp add: split_file_loop.simps [of n f s])

lemma ceil_div_step:
  fixes n m :: nat
  assumes "0 < n" "0 < m"
  shows "(m + n - 1) div n = Suc ((m - n + n - 1) div n)"
proof -
  have a: "m + n - 1 = (m - 1) + n" using assms by arith
  have "n \<noteq> 0" using assms by simp
  from div_add_self2 [OF this, of "m - 1"]
  have b: "((m - 1) + n) div n = Suc ((m - 1) div n)" by (simp only: Suc_eq_plus1)
  have c: "(m - n + n - 1) div n = (m - 1) div n"
  proof (cases "n \<le> m")
    case True
    then have "m - n + n - 1 = m - 1" by arith
    then show ?thesis by (simp only:)
  next
    case False
    then have "m - n + n - 1 = n - 1" by arith
    moreover have "(n - 1) div n = 0" using assms by simp
    moreover have "(m - 1) div n = 0" using False assms by simp
    ultimately show ?thesis by (simp only:)
  qed
  show ?thesis by (simp only: a b c)
qed

lemma split_file_loop_length:
  "0 < n \<Longrightarrow> length (split_file_loop n f s) = (length f + n - 1) div n"
proof (induction n f s rule: split_file_loop.induct)
  case (1 n f s)
  show ?case
  proof (cases "take n f = []")
    case True
    with 1(2) have "f = []" by simp
    with True 1(2) show ?thesis by (simp add: split_file_loop_stop)
  next
    case False
    then have pos: "0 < length f" by auto
    have ih: "length (split_file_loop n (drop n f) (s + 1)) = (length f - n + n - 1) div n"
      using 1(1) [OF refl False 1(2)] by simp
    have "length (split_file_loop n f s) = Suc (length (split_file_loop n (drop n f) (s + 1)))"
      using False by (simp add: split_file_loop_step)
    also have "\<dots> = Suc ((length f - n + n - 1) div n)"
      by (simp only: ih)
    also have "\<dots> = (length f + n - 1) div n"
      by (rule ceil_div_step [OF 1(2) pos, symmetric])
    finally show ?thesis .
  qed
qed

lemma split_file_loop_nth:
  "0 < n \<Longrightarrow> i < length (split_file_loop n f s) \<Longrightarrow>
   split_file_loop n f s ! i = (s + int i, take n (drop (i * n) f))"
proof (induction n f s arbitrary: i rule: split_file_loop.induct)
  case (1 n f s)
  show ?case
  proof (cases "take n f = []")
    case True
    with 1(3) show ?thesis by (simp add: split_file_loop_stop)
  next
    case False
    show ?thesis
    proof (cases i)
      case 0
      with False show ?thesis by (simp add: split_file_loop_step)
    next
      case (Suc j)
      with 1(3) False have "j < length (split_file_loop n (drop n f) (s + 1))"
        by (simp add: split_file_loop_step)
      from 1(1) [OF refl False 1(2) this] Suc False show ?thesis
        by (simp add: split_file_loop_step add.commute)
    qed
  qed
qed

lemma split_file_loop_concat:
  "0 < n \<Longrightarrow> concat (map snd (split_file_loop n f s)) = f"
proof (induction n f s rule: split_file_loop.induct)
  case (1 n f s)
  show ?case
  proof (cases "take n f = []")
    case True
    with 1(2) have "f = []" by simp
    with True show ?thesis by (simp add: split_file_loop_stop)
  next
    case False
    from 1(1) [OF refl False 1(2)] False show ?thesis
      by (simp add: split_file_loop_step)
  qed
qed

lemma split_file_loop_keys:
  "map fst (split_file_loop n f s) =
   map (\<lambda>i. s + int i) [0..<length (split_file_loop n f s)]"
proof (induction n f s rule: split_file_loop.induct)
  case (1 n f s)
  show ?case
  proof (cases "take n f = []")
    case True
    then show ?thesis by (simp add: split_file_loop_stop)
  next
    case False
    have "map (\<lambda>i. s + int i) [0..<Suc k] = s # map (\<lambda>i. s + 1 + int i) [0..<k]" for k
      by (simp add: upt_conv_Cons map_Suc_upt [symmetric] del: upt_Suc)
    with 1(1) [OF refl False] False show ?thesis
      by (simp add: split_file_loop_step del: upt_Suc)
  qed
qed

lemma py_range_split:
  "0 < n \<Longrightarrow>
   map (\<lambda>j. take n (drop j data)) (py_range i (length data) n) =
   map snd (split_file_loop n (drop i data) s)"
proof (induction i "length data" n arbitrary: s rule: py_range.induct)
  case (1 i n)
  show ?case
  proof (cases "length data \<le> i")
    case True
    then show ?thesis
      by (simp add: py_range.simps [of i "length data" n] split_file_loop_stop)
  next
    case False
    with 1(2) have ne: "take n (drop i data) \<noteq> []" by simp
    have "map (\<lambda>j. take n (drop j data)) (py_range (i + n) (length data) n) =
          map snd (split_file_loop n (drop (i + n) data) (s + 1))"
      using 1(1) [of "s + 1"] False 1(2) by simp
    with False 1(2) ne show ?thesis
      by (simp add: py_range.simps [of i "length data" n] split_file_loop_step add.commute)
  qed
qed

lemma split_chunks_eq:
  "0 < n \<Longrightarrow> split_chunks n data = Inr (map snd (split_file n data))"
  using py_range_split [of n data 0 0] by (simp add: split_chunks_def split_file_def)

lemma split_file_keys:
  "map fst (split_file n f) = map int [0..<length (split_file n f)]"
  using split_file_loop_keys [of n f 0] by (simp add: split_file_def)

lemma enumerate_split_chunks:
  "enumerate_chunks (map snd (split_file n f)) = split_file n f"
proof -
  have "zip (map fst (split_file n f)) (map snd (split_file n f)) = split_file n f"
    by (simp add: zip_map_fst_snd)
  then show ?thesis
    by (simp add: enumerate_chunks_def split_file_keys [symmetric])
qed

section \<open>Reassembly gives back the file\<close>

lemma ceil_div_gt:
  fixes n m i :: nat
  assumes "0 < n" "i < (m + n - 1) div n"
  shows "i * n < m"
proof -
  from assms(2) have "Suc i \<le> (m + n - 1) div n" by simp
  then have "Suc i * n \<le> ((m + n - 1) div n) * n" by (rule mult_le_mono1)
  also have "\<dots> \<le> m + n - 1" by (rule div_times_less_eq_dividend)
  finally have "i * n + n \<le> m + n - 1" by simp
  with assms(1) show ?thesis by arith
qed

text \<open>A buffer \<open>d\<close> agrees with the chunk list \<open>cs\<close>: same keys, same payloads.\<close>

lemma agree_lookup:
  assumes "distinct (map fst cs)"
    and keys: "fst ` set d = fst ` set cs"
    and vals: "\<forall>k v. map_of d k = Some v \<longrightarrow> map_of cs k = Some v"
    and "(k, v) \<in> set cs"
  shows "dict_get d k = v"
proof -
  from assms(4) keys have "k \<in> fst ` set d" by force
  then obtain w where w: "map_of d k = Some w"
    by (metis map_of_eq_None_iff not_Some_eq)
  with vals have "map_of cs k = Some w" by blast
  moreover from assms(1,4) have "map_of cs k = Some v" by simp
  ultimately show ?thesis using w by (simp add: dict_get_def)
qed

lemma agree_save_file:
  assumes dc: "distinct (map fst cs)" and sc: "sorted (map fst cs)"
    and dd: "distinct (map fst d)"
    and keys: "fst ` set d = fst ` set cs"
    and vals: "\<forall>k v. map_of d k = Some v \<longrightarrow> map_of cs k = Some v"
  shows "save_file d = concat (map snd cs)"
proof -
  have "sort (dict_keys d) = map fst cs"
  proof (rule sorted_distinct_set_unique)
    show "set (sort (dict_keys d)) = set (map fst cs)"
      using keys by (simp add: dict_keys_def)
  qed (use dc sc dd in \<open>simp_all add: dict_keys_def\<close>)
  moreover have "map (\<lambda>k. dict_get d k) (map fst cs) = map snd cs"
    using agree_lookup [OF dc keys vals] by (auto simp: map_eq_conv)
  ultimately show ?thesis by (simp only: save_file_def)
qed

lemma agree_reassemble:
  assumes dc: "distinct (map fst cs)"
    and ks: "map fst cs = map int [0..<length cs]"
    and keys: "fst ` set d = fst ` set cs"
    and vals: "\<forall>k v. map_of d k = Some v \<longrightarrow> map_of cs k = Some v"
  shows "reassemble (int (length cs)) d = concat (map snd cs)"
proof -
  have "map (\<lambda>i. if i \<in> set (dict_keys d) then dict_get d i else []) (map fst cs) = map snd cs"
    using agree_lookup [OF dc keys vals] keys
    by (auto simp: map_eq_conv dict_keys_def image_iff)
  then show ?thesis by (simp add: reassemble_def ks)
qed

lemma received_after_agree:
  assumes dc: "distinct (map fst cs)" and sub: "set arrivals \<subseteq> set cs"
    and dd: "distinct (map fst d)"
    and vals: "\<forall>k v. map_of d k = Some v \<longrightarrow> map_of cs k = Some v"
  defines "step \<equiv> \<lambda>received_chunks (seq_num, chunk_data).
                     store_received received_chunks seq_num chunk_data"
  shows "distinct (map fst (foldl step d arrivals))
       \<and> fst ` set (foldl step d arrivals) = fst ` set d \<union> fst ` set arrivals
       \<and> (\<forall>k v. map_of (foldl step d arrivals) k = Some v \<longrightarrow> map_of cs k = Some v)"
  using sub dd vals
proof (induction arrivals arbitrary: d)
  case Nil
  then show ?case by simp
next
  case (Cons a arrivals)
  obtain k v where a: "a = (k, v)" by (cases a)
  with Cons.prems(1) dc have kv: "map_of cs k = Some v" by simp
  let ?d = "store_received d k v"
  have 1: "distinct (map fst ?d)"
    using Cons.prems(2) by (simp add: store_received_def distinct_update)
  have 2: "\<forall>k' v'. map_of ?d k' = Some v' \<longrightarrow> map_of cs k' = Some v'"
    using Cons.prems(3) kv by (simp add: store_received_def update_conv')
  have 3: "fst ` set ?d = insert k (fst ` set d)"
    by (simp add: store_received_def dom_update)
  from Cons.prems(1) have "set arrivals \<subseteq> set cs" by simp
  from Cons.IH [OF this 1 2] 3 show ?case
    by (simp add: step_def a)
qed

lemma chunks_after_agree:
  assumes dc: "distinct (map fst cs)" and sub: "set arrivals \<subseteq> set cs"
    and dd: "distinct (map fst d)"
    and vals: "\<forall>k v. map_of d k = Some v \<longrightarrow> map_of cs k = Some v"
  defines "step \<equiv> \<lambda>chunks (sequence, data). store_chunk chunks sequence data"
  shows "distinct (map fst (foldl step d arrivals))
       \<and> fst ` set (foldl step d arrivals) = fst ` set d \<union> fst ` set arrivals
       \<and> (\<forall>k v. map_of (foldl step d arrivals) k = Some v \<longrightarrow> map_of cs k = Some v)"
  using sub dd vals
proof (induction arrivals arbitrary: d)
  case Nil
  then show ?case by simp
next
  case (Cons a arrivals)
  obtain k v where a: "a = (k, v)" by (cases a)
  with Cons.prems(1) dc have kv: "map_of cs k = Some v" by simp
  let ?d = "store_chunk d k v"
  have 1: "distinct (map fst ?d)"
    using Cons.prems(2) by (simp add: store_chunk_def distinct_update)
  have 2: "\<forall>k' v'. map_of ?d k' = Some v' \<longrightarrow> map_of cs k' = Some v'"
    using Cons.prems(3) kv by (simp add: store_chunk_def update_conv')
  have 3: "fst ` set ?d = insert k (fst ` set d)"
    by (auto simp: store_chunk_def dom_update dict_keys_def)
  from Cons.prems(1) have "set arrivals \<subseteq> set cs" by simp
  from Cons.IH [OF this 1 2] 3 show ?case
    by (simp add: step_def a)
qed

lemma split_file_distinct: "distinct (map fst (split_file n f))"
  by (simp add: split_file_keys distinct_map inj_on_def)

lemma split_file_sorted: "sorted (map fst (split_file n f))"
  by (simp add: split_file_keys sorted_map sorted_wrt_iff_nth_less)

lemma split_file_concat: "0 < n \<Longrightarrow> concat (map snd (split_file n f)) = f"
  by (simp add: split_file_def split_file_loop_concat)

text \<open>
  \<^bold>\<open>C1.\<close> For every byte buffer and every chunk size \<open>n > 0\<close>: when exactly the chunks
  of the split arrive (none dropped, none corrupted; in any order, and possibly more than
  once), writing out the buffer in ascending sequence order gives back the buffer. This
  holds for \<^verbatim>\<open>split_file\<close> with \<^verbatim>\<open>save_file\<close> (first\_task) and for the split of
  \<^verbatim>\<open>handle_client\<close> with the reassembly of \<^verbatim>\<open>upload_file\<close> (The-Multi-Client-Mayhem).
\<close>

theorem C1_split_assemble_roundtrip:
  assumes "0 < n"
  shows "(\<forall>arrivals. set arrivals = set (split_file n data) \<longrightarrow>
            save_file (received_after arrivals) = data)
       \<and> (\<exists>chunks. split_chunks n data = Inr chunks
            \<and> (\<forall>arrivals. set arrivals = set (enumerate_chunks chunks) \<longrightarrow>
                  reassemble (int (length chunks)) (chunks_after arrivals) = data))"
proof (intro conjI allI impI exI)
  let ?cs = "split_file n data"
  have dc: "distinct (map fst ?cs)" by (rule split_file_distinct)
  {
    fix arrivals assume eq: "set arrivals = set ?cs"
    then have sub: "set arrivals \<subseteq> set ?cs" by simp
    have "distinct (map fst (received_after arrivals))
        \<and> fst ` set (received_after arrivals) = fst ` set ([]::chunk_dict) \<union> fst ` set arrivals
        \<and> (\<forall>k v. map_of (received_after arrivals) k = Some v \<longrightarrow> map_of ?cs k = Some v)"
      unfolding received_after_def
      by (rule received_after_agree [OF dc sub]) simp_all
    then have "save_file (received_after arrivals) = concat (map snd ?cs)"
      using eq by (intro agree_save_file [OF dc split_file_sorted]) simp_all
    then show "save_file (received_after arrivals) = data"
      using assms by (simp add: split_file_concat)
  }
  show "split_chunks n data = Inr (map snd ?cs)"
    using assms by (rule split_chunks_eq)
  {
    fix arrivals assume "set arrivals = set (enumerate_chunks (map snd ?cs))"
    then have eq: "set arrivals = set ?cs" by (simp add: enumerate_split_chunks)
    then have sub: "set arrivals \<subseteq> set ?cs" by simp
    have "distinct (map fst (chunks_after arrivals))
        \<and> fst ` set (chunks_after arrivals) = fst ` set ([]::chunk_dict) \<union> fst ` set arrivals
        \<and> (\<forall>k v. map_of (chunks_after arrivals) k = Some v \<longrightarrow> map_of ?cs k = Some v)"
      unfolding chunks_after_def
      by (rule chunks_after_agree [OF dc sub]) simp_all
    then have "reassemble (int (length ?cs)) (chunks_after arrivals) = concat (map snd ?cs)"
      using eq by (intro agree_reassemble [OF dc split_file_keys]) simp_all
    then show "reassemble (int (length (map snd ?cs))) (chunks_after arrivals) = data"
      using assms by (simp add: split_file_concat)
  }
qed

theorem C1_split_assemble_roundtrip_witness:
  "(0::nat) < 2
   \<and> set [(2, ''e''), (0, ''ab''), (1, ''cd''), (0, ''ab'')] = set (split_file 2 ''abcde'')
   \<and> save_file (received_after [(2, ''e''), (0, ''ab''), (1, ''cd''), (0, ''ab'')]) = ''abcde''
   \<and> split_chunks 2 ''abcde'' = Inr [''ab'', ''cd'', ''e'']
   \<and> reassemble 3 (chunks_after [(2, ''e''), (0, ''ab''), (1, ''cd''), (0, ''ab'')]) = ''abcde''"
proof -
  have pos: "(0::nat) < 2" by simp
  have sp: "split_file 2 ''abcde'' = [(0, ''ab''), (1, ''cd''), (2, ''e'')]"
    by (simp add: split_file_def split_file_loop.simps)
  have sc: "split_chunks 2 ''abcde'' = Inr [''ab'', ''cd'', ''e'']"
    by (simp add: split_chunks_def py_range.simps)
  have en: "enumerate_chunks [''ab'', ''cd'', ''e''] = [(0, ''ab''), (1, ''cd''), (2, ''e'')]"
    by (simp add: enumerate_chunks_def upt_rec)
  have st: "set [(2, ''e''), (0, ''ab''), (1, ''cd''), (0, ''ab'')]
            = set [(0::int, ''ab''), (1, ''cd''), (2, ''e'')]"
    by auto
  from C1_split_assemble_roundtrip [OF pos, of "''abcde''"] sp sc en st pos
  show ?thesis by auto
qed

text \<open>
  \<^bold>\<open>C2.\<close> For every byte buffer and every chunk size \<open>n > 0\<close>, \<^verbatim>\<open>split_file\<close> emits
  \<open>\<lceil>length data / n\<rceil>\<close> chunks, numbered from 0; chunk \<open>i\<close> is the slice of \<open>n\<close> bytes
  starting at \<open>i * n\<close>; every chunk is non-empty and at most \<open>n\<close> bytes long, and every chunk
  but the last is exactly \<open>n\<close> bytes long. The empty buffer gives no chunk, and a buffer
  of exactly \<open>n\<close> bytes gives exactly one chunk. The split of \<^verbatim>\<open>handle_client\<close>
  produces the same payloads.
\<close>

theorem C2_split_shape:
  assumes "0 < n"
  shows "length (split_file n data) = (length data + n - 1) div n
       \<and> (\<forall>i < length (split_file n data).
             split_file n data ! i = (int i, take n (drop (i * n) data))
           \<and> 0 < length (snd (split_file n data ! i))
           \<and> length (snd (split_file n data ! i)) \<le> n
           \<and> (Suc i < length (split_file n data) \<longrightarrow>
                 length (snd (split_file n data ! i)) = n))
       \<and> split_file n [] = []
       \<and> (length data = n \<longrightarrow> split_file n data = [(0, data)])
       \<and> split_chunks n data = Inr (map snd (split_file n data))"
proof (intro conjI allI impI)
  show len: "length (split_file n data) = (length data + n - 1) div n"
    using assms by (simp add: split_file_def split_file_loop_length)
  show "split_file n [] = []"
    by (simp add: split_file_def split_file_loop_stop)
  show "split_chunks n data = Inr (map snd (split_file n data))"
    using assms by (rule split_chunks_eq)
  show "split_file n data = [(0, data)]" if "length data = n"
  proof -
    from that assms have "take n data = data" "take n data \<noteq> []" "drop n data = []"
      by auto
    then show ?thesis
      using split_file_loop_step [of n data 0] split_file_loop_stop [of n "[]" 1]
      by (simp add: split_file_def)
  qed
  fix i assume i: "i < length (split_file n data)"
  then show nth: "split_file n data ! i = (int i, take n (drop (i * n) data))"
    using assms by (simp add: split_file_def split_file_loop_nth)
  from i len have lt: "i * n < length data"
    using ceil_div_gt [OF assms, of i "length data"] by simp
  then show "0 < length (snd (split_file n data ! i))"
    using assms by (simp add: nth)
  show "length (snd (split_file n data ! i)) \<le> n"
    by (simp add: nth)
  show "length (snd (split_file n data ! i)) = n" if "Suc i < length (split_file n data)"
  proof -
    from that len have "Suc i * n < length data"
      using ceil_div_gt [OF assms, of "Suc i" "length data"] by simp
    then show ?thesis by (simp add: nth)
  qed
qed

theorem C2_split_shape_witness:
  "(0::nat) < 2
   \<and> split_file 2 ''abcde'' = [(0, ''ab''), (1, ''cd''), (2, ''e'')]
   \<and> length (split_file 2 ''abcde'') = (length ''abcde'' + 2 - 1) div 2
   \<and> length (snd (split_file 2 ''abcde'' ! 1)) = 2
   \<and> split_file 2 ''ab'' = [(0, ''ab'')]
   \<and> split_chunks 2 ''abcde'' = Inr (map snd (split_file 2 ''abcde''))"
proof -
  have pos: "(0::nat) < 2" by simp
  have sp: "split_file 2 ''abcde'' = [(0, ''ab''), (1, ''cd''), (2, ''e'')]"
    by (simp add: split_file_def split_file_loop.simps)
  from C2_split_shape [OF pos, of "''abcde''"] C2_split_shape [OF pos, of "''ab''"] sp pos
  show ?thesis by simp
qed

section \<open>The \<^verbatim>\<open>latin1\<close> transport of the upload\<close>

lemma encode_decode_latin1: "encode_latin1 (decode_latin1 b) = Inr b"
  by (simp add: encode_latin1_def decode_latin1_def list_all_iff comp_def)

text \<open>
  \<^bold>\<open>C10.\<close> For every byte string \<open>b\<close>, \<^verbatim>\<open>b.decode('latin1').encode('latin1') == b\<close>;
  so whenever the server writes the uploaded file (the request has a non-empty path
  and non-empty data), the bytes it writes are the bytes of the client's file. For the
  empty file the server writes nothing and answers with an error.
\<close>

theorem C10_latin1_upload_preserves_bytes:
  "encode_latin1 (decode_latin1 b) = Inr b
   \<and> handle_upload_write (make_upload_request path b) =
       (if path = [] \<or> b = [] then None else Some (Inr b))"
  by (simp add: handle_upload_write_def make_upload_request_def encode_decode_latin1)
     (simp add: decode_latin1_def)

section \<open>The framing layer\<close>

lemma recv_loop_done:
  "\<not> bytes_received < msg_len \<Longrightarrow>
   recv_loop msg_len bytes_received chunks sock = (Inr (concat chunks), sock)"
  by (simp add: recv_loop.simps [of msg_len bytes_received chunks sock])

lemma recv_loop_more:
  "bytes_received < msg_len \<Longrightarrow>
   recv (min (msg_len - bytes_received) 4096) sock = (chunk, sock') \<Longrightarrow> chunk \<noteq> [] \<Longrightarrow>
   recv_loop msg_len bytes_received chunks sock =
   recv_loop msg_len (bytes_received + length chunk) (chunks @ [chunk]) sock'"
  by (simp add: recv_loop.simps [of msg_len bytes_received chunks sock])

lemma recv_loop_closed:
  "bytes_received < msg_len \<Longrightarrow>
   recv (min (msg_len - bytes_received) 4096) sock = ([], sock') \<Longrightarrow>
   recv_loop msg_len bytes_received chunks sock = (Inl ConnectionError, sock')"
  by (simp add: recv_loop.simps [of msg_len bytes_received chunks sock])

text \<open>
  What the read loop guarantees once the length is known: a returned payload extends
  what was read so far to exactly \<open>msg_len\<close> bytes.
\<close>

lemma recv_length:
  "recv k sock = (chunk, sock') \<Longrightarrow> length chunk \<le> k"
  by (auto simp: recv_def split: list.splits)

lemma recv_loop_exact:
  "recv_loop msg_len bytes_received chunks sock = (Inr payload, sock') \<Longrightarrow>
   bytes_received = length (concat chunks) \<Longrightarrow> bytes_received \<le> msg_len \<Longrightarrow>
   length payload = msg_len"
proof (induction msg_len bytes_received chunks sock rule: recv_loop.induct)
  case (1 msg_len bytes_received chunks sock)
  show ?case
  proof (cases "bytes_received < msg_len")
    case False
    with "1.prems" show ?thesis by (simp add: recv_loop_done)
  next
    case True
    obtain chunk s where r: "recv (min (msg_len - bytes_received) 4096) sock = (chunk, s)"
      by (cases "recv (min (msg_len - bytes_received) 4096) sock")
    from recv_length [OF r] have le: "length chunk \<le> msg_len - bytes_received" by simp
    from "1.prems"(1) True r have ne: "chunk \<noteq> []"
      by (auto simp: recv_loop.simps [of msg_len bytes_received chunks sock])
    with "1.prems"(1) True r
    have "recv_loop msg_len (bytes_received + length chunk) (chunks @ [chunk]) s
          = (Inr payload, sock')"
      by (simp add: recv_loop.simps [of msg_len bytes_received chunks sock])
    from "1.IH" [OF True r [symmetric] ne this] "1.prems"(2) le True
    show ?thesis by simp
  qed
qed

lemma recv_loop_error:
  "recv_loop msg_len bytes_received chunks sock = (Inl e, sock') \<Longrightarrow> e = ConnectionError"
proof (induction msg_len bytes_received chunks sock rule: recv_loop.induct)
  case (1 msg_len bytes_received chunks sock)
  show ?case
  proof (cases "bytes_received < msg_len")
    case False
    with "1.prems" show ?thesis by (simp add: recv_loop_done)
  next
    case True
    obtain chunk s where r: "recv (min (msg_len - bytes_received) 4096) sock = (chunk, s)"
      by (cases "recv (min (msg_len - bytes_received) 4096) sock")
    show ?thesis
    proof (cases "chunk = []")
      case True
      with "1.prems" \<open>bytes_received < msg_len\<close> r show ?thesis
        by (simp add: recv_loop.simps [of msg_len bytes_received chunks sock])
    next
      case False
      with "1.prems" True r
      have "recv_loop msg_len (bytes_received + length chunk) (chunks @ [chunk]) s
            = (Inl e, sock')"
        by (simp add: recv_loop.simps [of msg_len bytes_received chunks sock])
      from "1.IH" [OF True r [symmetric] False this] show ?thesis .
    qed
  qed
qed

text \<open>
  When the four bytes of the prefix arrive in one read, \<^verbatim>\<open>receive_response\<close> does what
  the framing contract says: the payload it returns has the declared length, and its only
  failure is \<^verbatim>\<open>ConnectionError\<close>.
\<close>

lemma receive_response_payload_whole_prefix:
  assumes "recv 4 sock = (msg_len_bytes, sock1)" and "length msg_len_bytes = 4"
  shows "receive_response_payload sock = (Inr payload, sock') \<Longrightarrow>
           length payload = from_bytes_big msg_len_bytes"
    and "receive_response_payload sock = (Inl e, sock') \<Longrightarrow> e = ConnectionError"
proof -
  from assms(2) have ne: "msg_len_bytes \<noteq> []" by auto
  show "receive_response_payload sock = (Inr payload, sock') \<Longrightarrow>
           length payload = from_bytes_big msg_len_bytes"
    using assms(1) ne
      recv_loop_exact [of "from_bytes_big msg_len_bytes" 0 "[]" sock1 payload sock']
    by (simp add: receive_response_payload_def)
  show "receive_response_payload sock = (Inl e, sock') \<Longrightarrow> e = ConnectionError"
    using assms(1) ne
      recv_loop_error [of "from_bytes_big msg_len_bytes" 0 "[]" sock1 e sock']
    by (simp add: receive_response_payload_def)
qed

text \<open>
  \<^bold>\<open>C9.\<close> The claim is that reading a frame returns exactly the bytes declared by the
  4-byte prefix or fails with a closed-connection error, also when the stream ends
  inside the prefix, and never returns a partial frame. The code loops on partial reads
  of the payload only: the prefix is read with a single \<^verbatim>\<open>recv(4)\<close>.

  The frame of the payload \<^verbatim>\<open>{}\<close> is the six bytes \<open>00 00 00 02 7B 7D\<close>. Delivered as
  the segments \<open>00 00\<close>, \<open>00 02\<close>, \<open>7B 7D\<close>, \<^verbatim>\<open>receive_response\<close> takes the length from
  the first two bytes alone and returns an empty payload, leaving the rest of the frame
  in the stream. When the stream ends after \<open>00 00\<close>, it returns an empty payload instead
  of failing. \<^verbatim>\<open>receive_request\<close> on a stream that is already closed returns an empty
  payload too, where \<^verbatim>\<open>receive_response\<close> raises \<^verbatim>\<open>ConnectionError\<close>.
\<close>

theorem C9_read_frame_partial_prefix:
  "receive_response_payload [[CHR 0x00, CHR 0x00], [CHR 0x00, CHR 0x02], ''{}'']
       = (Inr [], [[CHR 0x00, CHR 0x02], ''{}''])
   \<and> receive_response_payload [[CHR 0x00, CHR 0x00, CHR 0x00, CHR 0x02, CHR ''{'', CHR ''}'']]
       = (Inr ''{}'', [])
   \<and> receive_response_payload [[CHR 0x00, CHR 0x00]] = (Inr [], [])
   \<and> receive_request_payload [] = (Inr [], [])
   \<and> receive_response_payload [] = (Inl ConnectionError, [])"
  by (simp add: receive_response_payload_def receive_request_payload_def recv_def
      from_bytes_big_def recv_loop_done recv_loop_more recv_loop_closed)

section \<open>Receiving one chunk\<close>

lemma c_chunks_sendall [simp]: "c_chunks (sendall msg st) = c_chunks st"
  by (simp add: sendall_def)

lemma c_saved_sendall [simp]: "c_saved (sendall msg st) = c_saved st"
  by (simp add: sendall_def)

lemma c_outbox_sendall [simp]: "c_outbox (sendall msg st) = c_outbox st @ [msg]"
  by (simp add: sendall_def)

lemma c_inbox_sendall [simp]: "c_inbox (sendall msg st) = c_inbox st"
  by (simp add: sendall_def)

lemma client_recv_fields [simp]:
  "c_chunks (snd (client_recv k st)) = c_chunks st"
  "c_saved (snd (client_recv k st)) = c_saved st"
  "c_outbox (snd (client_recv k st)) = c_outbox st"
  "c_inbox (snd (client_recv k st)) = snd (recv k (c_inbox st))"
  "fst (client_recv k st) = fst (recv k (c_inbox st))"
  by (simp_all add: client_recv_def split: prod.splits)

lemma process_chunk_mismatch:
  "md5_hexdigest L data \<noteq> chunk_checksum \<Longrightarrow>
   process_chunk L num_chunks sequence data chunk_checksum st
     = (Continue, sendall (''RETRANSMIT:'' @ str_int sequence) st)"
  by (simp add: process_chunk_def)

lemma process_chunk_chunks:
  "c_chunks (snd (process_chunk L num_chunks sequence data chunk_checksum st))
     = (if md5_hexdigest L data = chunk_checksum
        then store_chunk (c_chunks st) sequence data else c_chunks st)"
  by (simp add: process_chunk_def Let_def)

lemma process_chunk_saved:
  "c_saved (snd (process_chunk L num_chunks sequence data chunk_checksum st)) = c_saved st"
  by (simp add: process_chunk_def Let_def)

lemma process_chunk_outbox:
  "c_outbox (snd (process_chunk L num_chunks sequence data chunk_checksum st))
     = c_outbox st @ [if md5_hexdigest L data = chunk_checksum then ''OK''
                      else ''RETRANSMIT:'' @ str_int sequence]"
  by (simp add: process_chunk_def Let_def)

lemma store_chunk_present:
  "sequence \<in> set (dict_keys chunks) \<Longrightarrow> store_chunk chunks sequence data = chunks"
  by (simp add: store_chunk_def)

lemma store_received_lookup:
  "map_of (store_received received_chunks seq_num chunk_data) seq_num = Some chunk_data"
  by (simp add: store_received_def update_conv')

text \<open>
  What one iteration of the receive loop of \<^verbatim>\<open>upload_file\<close> does to the buffer: nothing,
  or it stores the payload of a decoded chunk message whose MD5 digest equals the digest
  the message declares.
\<close>

lemma receive_iteration_chunks:
  "c_chunks (snd (receive_iteration L num_chunks st)) = c_chunks st
   \<or> (\<exists>raw chunk_info data.
         loads_chunk L raw = Inr chunk_info
       \<and> fromhex (ci_data chunk_info) = Inr data
       \<and> md5_hexdigest L data = ci_checksum chunk_info
       \<and> c_chunks (snd (receive_iteration L num_chunks st))
           = store_chunk (c_chunks st) (ci_sequence chunk_info) data)"
proof -
  obtain chunk_len_data st1 where r1: "client_recv 1024 st = (chunk_len_data, st1)"
    by (cases "client_recv 1024 st")
  then have c1: "c_chunks st1 = c_chunks st"
    using client_recv_fields(1) [of 1024 st] by simp
  show ?thesis
  proof (cases "chunk_len_data = ''TRANSFER_COMPLETE''")
    case True
    with r1 c1 show ?thesis by (simp add: receive_iteration_def)
  next
    case not_end: False
    show ?thesis
    proof (cases "py_int chunk_len_data")
      case (Inl e)
      with r1 c1 not_end show ?thesis by (simp add: receive_iteration_def)
    next
      case (Inr chunk_len)
      show ?thesis
      proof (cases "chunk_len < 0")
        case True
        with r1 c1 not_end Inr show ?thesis by (simp add: receive_iteration_def Let_def)
      next
        case nonneg: False
        obtain raw st3 where
          r3: "client_recv (nat chunk_len) (sendall ''OK'' st1) = (raw, st3)"
          by (cases "client_recv (nat chunk_len) (sendall ''OK'' st1)")
        then have c3: "c_chunks st3 = c_chunks st"
          using client_recv_fields(1) [of "nat chunk_len" "sendall ''OK'' st1"] c1 by simp
        show ?thesis
        proof (cases "loads_chunk L raw")
          case (Inl e)
          with r1 not_end Inr nonneg r3 c3 show ?thesis
            by (simp add: receive_iteration_def Let_def)
        next
          case info: (Inr chunk_info)
          show ?thesis
          proof (cases "fromhex (ci_data chunk_info)")
            case (Inl e)
            with r1 not_end Inr nonneg r3 c3 info show ?thesis
              by (simp add: receive_iteration_def Let_def)
          next
            case data: (Inr data)
            have eq: "receive_iteration L num_chunks st =
                      process_chunk L num_chunks (ci_sequence chunk_info) data
                        (ci_checksum chunk_info) st3"
              using r1 not_end Inr nonneg r3 info data
              by (simp add: receive_iteration_def Let_def)
            show ?thesis
            proof (cases "md5_hexdigest L data = ci_checksum chunk_info")
              case True
              with eq c3 info data show ?thesis
                by (auto simp: process_chunk_chunks)
            next
              case False
              with eq c3 show ?thesis by (simp add: process_chunk_chunks)
            qed
          qed
        qed
      qed
    qed
  qed
qed

text \<open>
  \<^bold>\<open>C3\<close>, as the code has it. In The-Multi-Client-Mayhem the client recomputes the MD5
  digest of the payload of every decoded chunk message and compares it with the digest
  the message declares: on a mismatch it sends \<^verbatim>\<open>RETRANSMIT:<sequence>\<close>, goes on with the
  loop and leaves the buffer as it is; the buffer changes only when the digests are
  equal, and an iteration of the receive loop never stores anything but the payload of a
  verified message. The first\_task client has no per-chunk digest: it stores every
  payload it receives under its sequence number.
\<close>

theorem C3_chunk_digest_checked_before_store:
  "(md5_hexdigest L data \<noteq> chunk_checksum \<longrightarrow>
      process_chunk L num_chunks sequence data chunk_checksum st
        = (Continue, sendall (''RETRANSMIT:'' @ str_int sequence) st)
    \<and> c_chunks (snd (process_chunk L num_chunks sequence data chunk_checksum st))
        = c_chunks st)
   \<and> (c_chunks (snd (process_chunk L num_chunks sequence data chunk_checksum st))
         \<noteq> c_chunks st \<longrightarrow> md5_hexdigest L data = chunk_checksum)
   \<and> (c_chunks (snd (receive_iteration L num_chunks st)) = c_chunks st
      \<or> (\<exists>raw chunk_info payload.
            loads_chunk L raw = Inr chunk_info
          \<and> fromhex (ci_data chunk_info) = Inr payload
          \<and> md5_hexdigest L payload = ci_checksum chunk_info
          \<and> c_chunks (snd (receive_iteration L num_chunks st))
              = store_chunk (c_chunks st) (ci_sequence chunk_info) payload))
   \<and> map_of (store_received received_chunks seq_num chunk_data) seq_num = Some chunk_data"
proof (intro conjI impI)
  assume "md5_hexdigest L data \<noteq> chunk_checksum"
  then show "process_chunk L num_chunks sequence data chunk_checksum st
               = (Continue, sendall (''RETRANSMIT:'' @ str_int sequence) st)"
    by (rule process_chunk_mismatch)
  then show "c_chunks (snd (process_chunk L num_chunks sequence data chunk_checksum st))
               = c_chunks st"
    by simp
next
  assume "c_chunks (snd (process_chunk L num_chunks sequence data chunk_checksum st))
            \<noteq> c_chunks st"
  then show "md5_hexdigest L data = chunk_checksum"
    by (simp add: process_chunk_chunks split: if_splits)
next
  show "c_chunks (snd (receive_iteration L num_chunks st)) = c_chunks st
      \<or> (\<exists>raw chunk_info payload.
            loads_chunk L raw = Inr chunk_info
          \<and> fromhex (ci_data chunk_info) = Inr payload
          \<and> md5_hexdigest L payload = ci_checksum chunk_info
          \<and> c_chunks (snd (receive_iteration L num_chunks st))
              = store_chunk (c_chunks st) (ci_sequence chunk_info) payload)"
    by (rule receive_iteration_chunks)
next
  show "map_of (store_received received_chunks seq_num chunk_data) seq_num = Some chunk_data"
    by (rule store_received_lookup)
qed

theorem C3_chunk_digest_checked_before_store_witness:
  "md5_hexdigest demo_lib ''cd'' \<noteq> ''corrupted_checksum''
   \<and> process_chunk demo_lib 2 1 ''cd'' ''corrupted_checksum''
         \<lparr>c_inbox = [], c_outbox = [], c_chunks = [(0, ''ab'')], c_saved = None\<rparr>
       = (Continue, \<lparr>c_inbox = [], c_outbox = [''RETRANSMIT:1''],
                     c_chunks = [(0, ''ab'')], c_saved = None\<rparr>)
   \<and> c_chunks (snd (process_chunk demo_lib 2 1 ''cd'' ''corrupted_checksum''
         \<lparr>c_inbox = [], c_outbox = [], c_chunks = [(0, ''ab'')], c_saved = None\<rparr>))
       = [(0, ''ab'')]"
proof -
  have ne: "md5_hexdigest demo_lib ''cd'' \<noteq> ''corrupted_checksum''"
    by (simp add: demo_lib_def)
  have s: "str_int 1 = ''1''" by code_simp
  from C3_chunk_digest_checked_before_store
         [where L = demo_lib and data = "''cd''" and chunk_checksum = "''corrupted_checksum''"
            and num_chunks = 2 and sequence = 1
            and st = "\<lparr>c_inbox = [], c_outbox = [], c_chunks = [(0, ''ab'')], c_saved = None\<rparr>"]
       ne s
  show ?thesis by (simp add: sendall_def)
qed

text \<open>
  The claim as stated fails on first\_task: a frame that carries the payload \<open>b\<close>
  as sequence number 0, with a declared digest that is not the digest of \<open>b\<close>, is stored
  by the receive loop of \<^verbatim>\<open>FileTransferClient.upload_file\<close>.
\<close>

theorem C3_counterexample_first_task_stores_unverified:
  "md5_hexdigest demo_lib ''b'' \<noteq> ''corrupted_checksum''
   \<and> loads_response demo_lib ''C:0:62:corrupted_checksum''
       = Inr (ChunkMsg 0 ''62'' (Some ''corrupted_checksum''))
   \<and> fromhex ''62'' = Inr ''b''
   \<and> receive_chunks demo_lib []
        [[CHR 0x00, CHR 0x00, CHR 0x00, CHR 0x19] @ ''C:0:62:corrupted_checksum'',
         [CHR 0x00, CHR 0x00, CHR 0x00, CHR 0x01] @ ''E'']
       = (Inr [(0, ''b'')], [])"
proof (intro conjI)
  show "md5_hexdigest demo_lib ''b'' \<noteq> ''corrupted_checksum''"
    by (simp add: demo_lib_def)
  show "loads_response demo_lib ''C:0:62:corrupted_checksum''
          = Inr (ChunkMsg 0 ''62'' (Some ''corrupted_checksum''))"
    by code_simp
  show "fromhex ''62'' = Inr ''b''"
    by code_simp
  show "receive_chunks demo_lib []
        [[CHR 0x00, CHR 0x00, CHR 0x00, CHR 0x19] @ ''C:0:62:corrupted_checksum'',
         [CHR 0x00, CHR 0x00, CHR 0x00, CHR 0x01] @ ''E'']
       = (Inr [(0, ''b'')], [])"
    by code_simp
qed

section \<open>A sequence number that is already in the buffer\<close>

lemma store_received_same:
  "map_of received_chunks seq_num = Some chunk_data \<Longrightarrow>
   store_received received_chunks seq_num chunk_data = received_chunks"
  by (simp add: store_received_def update_triv)

text \<open>
  \<^bold>\<open>C4\<close>, as the code has it. In The-Multi-Client-Mayhem a chunk message whose sequence
  number is already in the buffer leaves the buffer, the saved file and hence the
  reassembled output unchanged, whatever its payload; when its digest verifies the reply
  is \<^verbatim>\<open>OK\<close>. The first\_task client overwrites: after a chunk message the buffer holds
  the payload of that message under its sequence number, so a repeated sequence number
  leaves the buffer unchanged exactly when it repeats the payload.
\<close>

theorem C4_duplicate_sequence_number:
  "(sequence \<in> set (dict_keys (c_chunks st)) \<longrightarrow>
      c_chunks (snd (process_chunk L num_chunks sequence data chunk_checksum st)) = c_chunks st
    \<and> c_saved (snd (process_chunk L num_chunks sequence data chunk_checksum st)) = c_saved st
    \<and> reassemble n (c_chunks (snd (process_chunk L num_chunks sequence data chunk_checksum st)))
        = reassemble n (c_chunks st)
    \<and> (md5_hexdigest L data = chunk_checksum \<longrightarrow>
          c_outbox (snd (process_chunk L num_chunks sequence data chunk_checksum st))
            = c_outbox st @ [''OK'']))
   \<and> map_of (store_received received_chunks seq_num chunk_data) seq_num = Some chunk_data
   \<and> (map_of received_chunks seq_num = Some chunk_data \<longrightarrow>
        store_received received_chunks seq_num chunk_data = received_chunks
      \<and> save_file (store_received received_chunks seq_num chunk_data)
          = save_file received_chunks)"
proof (intro conjI impI)
  assume present: "sequence \<in> set (dict_keys (c_chunks st))"
  then show same: "c_chunks (snd (process_chunk L num_chunks sequence data chunk_checksum st))
                     = c_chunks st"
    by (simp add: process_chunk_chunks store_chunk_present)
  show "c_saved (snd (process_chunk L num_chunks sequence data chunk_checksum st)) = c_saved st"
    by (rule process_chunk_saved)
  show "reassemble n (c_chunks (snd (process_chunk L num_chunks sequence data chunk_checksum st)))
          = reassemble n (c_chunks st)"
    by (simp only: same)
  show "c_outbox (snd (process_chunk L num_chunks sequence data chunk_checksum st))
          = c_outbox st @ [''OK'']" if "md5_hexdigest L data = chunk_checksum"
    using that by (simp add: process_chunk_outbox)
next
  show "map_of (store_received received_chunks seq_num chunk_data) seq_num = Some chunk_data"
    by (rule store_received_lookup)
next
  assume "map_of received_chunks seq_num = Some chunk_data"
  then show same: "store_received received_chunks seq_num chunk_data = received_chunks"
    by (rule store_received_same)
  show "save_file (store_received received_chunks seq_num chunk_data) = save_file received_chunks"
    by (simp only: same)
qed

theorem C4_duplicate_sequence_number_witness:
  "0 \<in> set (dict_keys [(0::int, ''ab'')])
   \<and> md5_hexdigest demo_lib ''zz'' = ''zz''
   \<and> process_chunk demo_lib 2 0 ''zz'' ''zz''
        \<lparr>c_inbox = [], c_outbox = [], c_chunks = [(0, ''ab'')], c_saved = None\<rparr>
       = (Continue, \<lparr>c_inbox = [], c_outbox = [''OK''],
                     c_chunks = [(0, ''ab'')], c_saved = None\<rparr>)
   \<and> reassemble 1 (c_chunks (snd (process_chunk demo_lib 2 0 ''zz'' ''zz''
        \<lparr>c_inbox = [], c_outbox = [], c_chunks = [(0, ''ab'')], c_saved = None\<rparr>))) = ''ab''
   \<and> map_of [(0::int, ''ab'')] 0 = Some ''ab''
   \<and> store_received [(0, ''ab'')] 0 ''ab'' = [(0, ''ab'')]"
proof -
  have k: "0 \<in> set (dict_keys [(0::int, ''ab'')])" by (simp add: dict_keys_def)
  have m: "md5_hexdigest demo_lib ''zz'' = ''zz''" by (simp add: demo_lib_def)
  have p: "process_chunk demo_lib 2 0 ''zz'' ''zz''
        \<lparr>c_inbox = [], c_outbox = [], c_chunks = [(0, ''ab'')], c_saved = None\<rparr>
       = (Continue, \<lparr>c_inbox = [], c_outbox = [''OK''],
                     c_chunks = [(0, ''ab'')], c_saved = None\<rparr>)"
    by (simp add: process_chunk_def demo_lib_def store_chunk_def dict_keys_def sendall_def)
  have r: "reassemble 1 [(0, ''ab'')] = ''ab''"
    by (simp add: reassemble_def dict_keys_def dict_get_def)
  from C4_duplicate_sequence_number
         [where L = demo_lib and data = "''zz''" and chunk_checksum = "''zz''"
            and num_chunks = 2 and sequence = 0 and n = 1
            and st = "\<lparr>c_inbox = [], c_outbox = [], c_chunks = [(0, ''ab'')], c_saved = None\<rparr>"
            and received_chunks = "[(0, ''ab'')]" and seq_num = 0 and chunk_data = "''ab''"]
       k m p r
  show ?thesis by simp
qed

text \<open>
  The claim as stated fails on first\_task: with sequence number 0 in the buffer, a
  chunk message for sequence number 0 with another payload replaces the stored payload,
  and the file written from the buffer changes with it.
\<close>

theorem C4_counterexample_first_task_overwrites:
  "0 \<in> set (dict_keys [(0::int, ''a'')])
   \<and> receive_chunks demo_lib [(0, ''a'')]
        [[CHR 0x00, CHR 0x00, CHR 0x00, CHR 0x06] @ ''C:0:62'',
         [CHR 0x00, CHR 0x00, CHR 0x00, CHR 0x01] @ ''E'']
       = (Inr [(0, ''b'')], [])
   \<and> save_file [(0, ''a'')] = ''a''
   \<and> save_file [(0, ''b'')] = ''b''"
proof (intro conjI)
  show "0 \<in> set (dict_keys [(0::int, ''a'')])" by (simp add: dict_keys_def)
  show "receive_chunks demo_lib [(0, ''a'')]
        [[CHR 0x00, CHR 0x00, CHR 0x00, CHR 0x06] @ ''C:0:62'',
         [CHR 0x00, CHR 0x00, CHR 0x00, CHR 0x01] @ ''E'']
       = (Inr [(0, ''b'')], [])"
    by code_simp
  show "save_file [(0, ''a'')] = ''a''"
    by (simp add: save_file_def dict_keys_def dict_get_def)
  show "save_file [(0, ''b'')] = ''b''"
    by (simp add: save_file_def dict_keys_def dict_get_def)
qed

section \<open>A chunk message that does not decode\<close>

text \<open>
  The client's side: when the chunk message is not JSON, the receive loop sends
  \<^verbatim>\<open>RETRANSMIT:LAST\<close> and goes on; a message that is JSON of another shape, or whose data
  is not hexadecimal, raises another exception, which the outer handler answers with
  \<^verbatim>\<open>ERROR\<close> before leaving the loop.
\<close>

lemma receive_iteration_not_json:
  assumes "client_recv 1024 st = (chunk_len_data, st1)"
    and "chunk_len_data \<noteq> ''TRANSFER_COMPLETE''"
    and "py_int chunk_len_data = Inr chunk_len" and "0 \<le> chunk_len"
    and "client_recv (nat chunk_len) (sendall ''OK'' st1) = (chunk_json_data, st3)"
    and "loads_chunk L chunk_json_data = Inl JSONDecodeError"
  shows "receive_iteration L num_chunks st = (Continue, sendall ''RETRANSMIT:LAST'' st3)"
  using assms by (simp add: receive_iteration_def Let_def)

lemma receive_iteration_other_exception:
  assumes "client_recv 1024 st = (chunk_len_data, st1)"
    and "chunk_len_data \<noteq> ''TRANSFER_COMPLETE''"
    and "py_int chunk_len_data = Inr chunk_len" and "0 \<le> chunk_len"
    and "client_recv (nat chunk_len) (sendall ''OK'' st1) = (chunk_json_data, st3)"
    and "loads_chunk L chunk_json_data = Inl e" and "e \<noteq> JSONDecodeError"
  shows "receive_iteration L num_chunks st = (Break, sendall ''ERROR'' st3)"
  using assms by (simp add: receive_iteration_def Let_def)

text \<open>
  \<^bold>\<open>C7.\<close> The claim is that a malformed chunk frame makes the receiver ask for the last
  sequence again and that neither peer aborts the session over the frame or over that
  request. The client does send \<^verbatim>\<open>RETRANSMIT:LAST\<close>. The server's retransmission loop
  reads the sequence number with \<^verbatim>\<open>int(ack.split(":")[1])\<close>, and \<^verbatim>\<open>int("LAST")\<close> raises
  \<^verbatim>\<open>ValueError\<close>: the loop is left through the exception handler of \<^verbatim>\<open>handle_client\<close>,
  which closes the connection. In the run below the file \<open>abcd\<close> is split into two
  chunks; the client answers the first chunk message with \<^verbatim>\<open>RETRANSMIT:LAST\<close>, and the
  server stops there: the second chunk and \<^verbatim>\<open>TRANSFER_COMPLETE\<close> are never sent.
\<close>

theorem C7_retransmit_last_aborts_server:
  "receive_iteration demo_lib 2
      \<lparr>c_inbox = [''3'', ''{{{''], c_outbox = [], c_chunks = [], c_saved = None\<rparr>
     = (Continue, \<lparr>c_inbox = [], c_outbox = [''OK'', ''RETRANSMIT:LAST''],
                   c_chunks = [], c_saved = None\<rparr>)
   \<and> retransmit_seq_num ''RETRANSMIT:LAST'' = Inl ValueError
   \<and> retransmit_loop L client_id chunks ''RETRANSMIT:LAST'' sv = (Some ValueError, sv)
   \<and> send_file_back demo_lib 2 ''c'' ''abcd'' []
        \<lparr>s_inbox = [''OK'', ''OK'', ''RETRANSMIT:LAST''], s_outbox = []\<rparr>
     = (Some ValueError, \<lparr>s_inbox = [], s_outbox = [''2'', ''9'', ''0:6162:ab'']\<rparr>)"
proof (intro conjI)
  show "receive_iteration demo_lib 2
      \<lparr>c_inbox = [''3'', ''{{{''], c_outbox = [], c_chunks = [], c_saved = None\<rparr>
     = (Continue, \<lparr>c_inbox = [], c_outbox = [''OK'', ''RETRANSMIT:LAST''],
                   c_chunks = [], c_saved = None\<rparr>)"
    by code_simp
  show seq: "retransmit_seq_num ''RETRANSMIT:LAST'' = Inl ValueError"
    by code_simp
  have "startswith ''RETRANSMIT:LAST'' ''RETRANSMIT''"
    by (simp add: startswith_def)
  with seq show "retransmit_loop L client_id chunks ''RETRANSMIT:LAST'' sv = (Some ValueError, sv)"
    by (subst retransmit_loop.simps) simp
  show "send_file_back demo_lib 2 ''c'' ''abcd'' []
        \<lparr>s_inbox = [''OK'', ''OK'', ''RETRANSMIT:LAST''], s_outbox = []\<rparr>
     = (Some ValueError, \<lparr>s_inbox = [], s_outbox = [''2'', ''9'', ''0:6162:ab'']\<rparr>)"
    by code_simp
qed

section \<open>Bounded retransmission\<close>

lemma receive_loop_bound: "fst (receive_loop L num_chunks remaining st) \<le> remaining"
proof (induction remaining arbitrary: st)
  case 0
  show ?case by simp
next
  case (Suc remaining)
  obtain ctl st' where it: "receive_iteration L num_chunks st = (ctl, st')"
    by (cases "receive_iteration L num_chunks st")
  show ?case
  proof (cases ctl)
    case Break
    with it show ?thesis by simp
  next
    case Continue
    with it Suc.IH [of st'] show ?thesis
      by (cases "receive_loop L num_chunks remaining st'") simp
  qed
qed

lemma upload_passes:
  "int (u_passes (first_task_upload_file L max_retries retry_count written sock))
     = 1 + (u_retry_count (first_task_upload_file L max_retries retry_count written sock)
            - retry_count)"
proof (induction L max_retries retry_count written sock rule: first_task_upload_file.induct)
  case (1 L max_retries retry_count written sock)
  let ?a = "upload_attempt L sock"
  show ?case
  proof (cases "a_outcome ?a \<noteq> Verified \<and> a_outcome ?a \<noteq> Aborted \<and> retry_count < max_retries")
    case True
    with "1.IH" [OF refl refl] show ?thesis
      by (subst (1 2) first_task_upload_file.simps) (simp add: Let_def)
  next
    case False
    then show ?thesis
      by (subst (1 2) first_task_upload_file.simps) (auto simp: Let_def)
  qed
qed

lemma upload_retry_count:
  "retry_count \<le> max_retries \<Longrightarrow>
   u_retry_count (first_task_upload_file L max_retries retry_count written sock) \<le> max_retries"
proof (induction L max_retries retry_count written sock rule: first_task_upload_file.induct)
  case (1 L max_retries retry_count written sock)
  let ?a = "upload_attempt L sock"
  show ?case
  proof (cases "a_outcome ?a \<noteq> Verified \<and> a_outcome ?a \<noteq> Aborted \<and> retry_count < max_retries")
    case True
    with "1.IH" [OF refl refl] "1.prems" show ?thesis
      by (subst first_task_upload_file.simps) (simp add: Let_def)
  next
    case False
    with "1.prems" show ?thesis
      by (subst first_task_upload_file.simps) (auto simp: Let_def)
  qed
qed

lemma upload_last:
  "(u_returned (first_task_upload_file L max_retries retry_count written sock)
      \<longleftrightarrow> u_last (first_task_upload_file L max_retries retry_count written sock) = Verified)
   \<and> (u_last (first_task_upload_file L max_retries retry_count written sock) = MissingChunks
       \<or> u_last (first_task_upload_file L max_retries retry_count written sock) = ChecksumFailed
      \<longrightarrow> max_retries
            \<le> u_retry_count (first_task_upload_file L max_retries retry_count written sock))"
proof (induction L max_retries retry_count written sock rule: first_task_upload_file.induct)
  case (1 L max_retries retry_count written sock)
  let ?a = "upload_attempt L sock"
  show ?case
  proof (cases "a_outcome ?a \<noteq> Verified \<and> a_outcome ?a \<noteq> Aborted \<and> retry_count < max_retries")
    case True
    with "1.IH" [OF refl refl] show ?thesis
      by (subst (1 2 3 4 5) first_task_upload_file.simps) (simp add: Let_def)
  next
    case False
    then show ?thesis
      by (subst (1 2 3 4 5) first_task_upload_file.simps) (auto simp: Let_def)
  qed
qed

lemma upload_passes_bound:
  "u_passes (first_task_upload_file L max_retries retry_count written sock)
     \<le> Suc (nat (max_retries - retry_count))"
proof (induction L max_retries retry_count written sock rule: first_task_upload_file.induct)
  case (1 L max_retries retry_count written sock)
  let ?a = "upload_attempt L sock"
  show ?case
  proof (cases "a_outcome ?a \<noteq> Verified \<and> a_outcome ?a \<noteq> Aborted \<and> retry_count < max_retries")
    case True
    then have "retry_count < max_retries" by simp
    then have "Suc (nat (max_retries - (retry_count + 1))) = nat (max_retries - retry_count)"
      by arith
    with "1.IH" [OF refl refl] True show ?thesis
      by (subst first_task_upload_file.simps) (simp add: Let_def)
  next
    case False
    then show ?thesis
      by (subst first_task_upload_file.simps) (auto simp: Let_def)
  qed
qed

text \<open>
  \<^bold>\<open>C8.\<close> The receive loop of The-Multi-Client-Mayhem runs at most
  \<open>2 \<times> num_chunks\<close> iterations. In first\_task, with the budget \<^verbatim>\<open>max_retries\<close>, every
  pass of \<^verbatim>\<open>upload_file\<close> after the first uses up one retry, at most
  \<open>max_retries - retry_count\<close> of them are made, and the upload is given up with
  \<^verbatim>\<open>False\<close>, never \<^verbatim>\<open>True\<close>, once a pass fails with the budget spent. Both functions
  are total: on every input they return.
\<close>

theorem C8_bounded_retransmission:
  "fst (receive_loop L num_chunks (nat (num_chunks * 2)) st) \<le> nat (num_chunks * 2)
   \<and> int (fst (receive_loop L num_chunks (nat (num_chunks * 2)) st)) \<le> max 0 (2 * num_chunks)
   \<and> u_passes (first_task_upload_file L max_retries retry_count written sock)
        \<le> Suc (nat (max_retries - retry_count))
   \<and> int (u_passes (first_task_upload_file L max_retries retry_count written sock))
        = 1 + (u_retry_count (first_task_upload_file L max_retries retry_count written sock)
               - retry_count)
   \<and> (retry_count \<le> max_retries \<longrightarrow>
        u_retry_count (first_task_upload_file L max_retries retry_count written sock)
          \<le> max_retries)
   \<and> (u_returned (first_task_upload_file L max_retries retry_count written sock)
        \<longleftrightarrow> u_last (first_task_upload_file L max_retries retry_count written sock) = Verified)
   \<and> (u_last (first_task_upload_file L max_retries retry_count written sock) = MissingChunks
         \<or> u_last (first_task_upload_file L max_retries retry_count written sock) = ChecksumFailed
        \<longrightarrow> \<not> u_returned (first_task_upload_file L max_retries retry_count written sock)
          \<and> max_retries
              \<le> u_retry_count (first_task_upload_file L max_retries retry_count written sock))"
proof -
  let ?r = "first_task_upload_file L max_retries retry_count written sock"
  have a: "fst (receive_loop L num_chunks (nat (num_chunks * 2)) st) \<le> nat (num_chunks * 2)"
    by (rule receive_loop_bound)
  then have b: "int (fst (receive_loop L num_chunks (nat (num_chunks * 2)) st))
                  \<le> max 0 (2 * num_chunks)"
    by simp
  have c: "u_returned ?r \<longleftrightarrow> u_last ?r = Verified"
    using upload_last [of L max_retries retry_count written sock] by blast
  have d: "u_last ?r = MissingChunks \<or> u_last ?r = ChecksumFailed
           \<longrightarrow> \<not> u_returned ?r \<and> max_retries \<le> u_retry_count ?r"
    using upload_last [of L max_retries retry_count written sock] by auto
  from a b c d upload_passes_bound [of L max_retries retry_count written sock]
    upload_passes [of L max_retries retry_count written sock]
    upload_retry_count [of retry_count max_retries L written sock]
  show ?thesis by blast
qed

theorem C8_bounded_retransmission_witness:
  "fst (receive_loop demo_lib 1 (nat (1 * 2))
          \<lparr>c_inbox = [''9'', ''0:6162:zz'', ''9'', ''0:6162:zz'', ''TRANSFER_COMPLETE''],
           c_outbox = [], c_chunks = [], c_saved = None\<rparr>) = 2
   \<and> (0::int) \<le> 1
   \<and> u_passes (first_task_upload_file demo_lib 1 0 None
        [[CHR 0x00, CHR 0x00, CHR 0x00, CHR 0x05] @ ''R:a:1'',
         [CHR 0x00, CHR 0x00, CHR 0x00, CHR 0x01] @ ''E'',
         [CHR 0x00, CHR 0x00, CHR 0x00, CHR 0x05] @ ''R:a:1'',
         [CHR 0x00, CHR 0x00, CHR 0x00, CHR 0x01] @ ''E'']) = 2
   \<and> u_retry_count (first_task_upload_file demo_lib 1 0 None
        [[CHR 0x00, CHR 0x00, CHR 0x00, CHR 0x05] @ ''R:a:1'',
         [CHR 0x00, CHR 0x00, CHR 0x00, CHR 0x01] @ ''E'',
         [CHR 0x00, CHR 0x00, CHR 0x00, CHR 0x05] @ ''R:a:1'',
         [CHR 0x00, CHR 0x00, CHR 0x00, CHR 0x01] @ ''E'']) = 1
   \<and> u_last (first_task_upload_file demo_lib 1 0 None
        [[CHR 0x00, CHR 0x00, CHR 0x00, CHR 0x05] @ ''R:a:1'',
         [CHR 0x00, CHR 0x00, CHR 0x00, CHR 0x01] @ ''E'',
         [CHR 0x00, CHR 0x00, CHR 0x00, CHR 0x05] @ ''R:a:1'',
         [CHR 0x00, CHR 0x00, CHR 0x00, CHR 0x01] @ ''E'']) = MissingChunks
   \<and> \<not> u_returned (first_task_upload_file demo_lib 1 0 None
        [[CHR 0x00, CHR 0x00, CHR 0x00, CHR 0x05] @ ''R:a:1'',
         [CHR 0x00, CHR 0x00, CHR 0x00, CHR 0x01] @ ''E'',
         [CHR 0x00, CHR 0x00, CHR 0x00, CHR 0x05] @ ''R:a:1'',
         [CHR 0x00, CHR 0x00, CHR 0x00, CHR 0x01] @ ''E''])"
proof -
  let ?st = "\<lparr>c_inbox = [''9'', ''0:6162:zz'', ''9'', ''0:6162:zz'', ''TRANSFER_COMPLETE''],
              c_outbox = [], c_chunks = [], c_saved = None\<rparr>"
  let ?sock = "[[CHR 0x00, CHR 0x00, CHR 0x00, CHR 0x05] @ ''R:a:1'',
                [CHR 0x00, CHR 0x00, CHR 0x00, CHR 0x01] @ ''E'',
                [CHR 0x00, CHR 0x00, CHR 0x00, CHR 0x05] @ ''R:a:1'',
                [CHR 0x00, CHR 0x00, CHR 0x00, CHR 0x01] @ ''E'']"
  have it: "fst (receive_loop demo_lib 1 (nat (1 * 2)) ?st) = 2"
    by code_simp
  have last: "u_last (first_task_upload_file demo_lib 1 0 None ?sock) = MissingChunks"
    by code_simp
  have rc: "u_retry_count (first_task_upload_file demo_lib 1 0 None ?sock) = 1"
    by code_simp
  from C8_bounded_retransmission
         [where L = demo_lib and num_chunks = 1 and st = ?st and max_retries = 1
            and retry_count = 0 and written = None and sock = ?sock]
       it last rc
  show ?thesis by simp
qed

section \<open>The end marker and the final verdict\<close>

lemma receive_chunks_distinct:
  "receive_chunks L received_chunks sock = (Inr received, sock') \<Longrightarrow>
   distinct (map fst received_chunks) \<Longrightarrow> distinct (map fst received)"
proof (induction L received_chunks sock rule: receive_chunks.induct)
  case (1 L received_chunks sock)
  obtain res sock1 where rr: "receive_response L sock = (res, sock1)"
    by (cases "receive_response L sock")
  show ?case
  proof (cases res)
    case (Inl e)
    with rr "1.prems" show ?thesis
      by (simp add: receive_chunks.simps [of L received_chunks sock])
  next
    case (Inr chunk_response)
    note r = rr [unfolded Inr]
    show ?thesis
    proof (cases chunk_response)
      case (Ready c t)
      with r "1.prems"(1) have "receive_chunks L received_chunks sock1 = (Inr received, sock')"
        by (simp add: receive_chunks.simps [of L received_chunks sock])
      from "1.IH"(1) [OF rr [symmetric] Inr Ready this "1.prems"(2)] show ?thesis .
    next
      case (ChunkMsg seq_num data_hex extra)
      show ?thesis
      proof (cases "fromhex data_hex")
        case (Inl e)
        with r ChunkMsg "1.prems" show ?thesis
          by (simp add: receive_chunks.simps [of L received_chunks sock])
      next
        case data: (Inr chunk_data)
        with r ChunkMsg "1.prems"(1)
        have "receive_chunks L (store_received received_chunks seq_num chunk_data) sock1
                = (Inr received, sock')"
          by (simp add: receive_chunks.simps [of L received_chunks sock])
        moreover have "distinct (map fst (store_received received_chunks seq_num chunk_data))"
          using "1.prems"(2) by (simp add: store_received_def distinct_update)
        ultimately show ?thesis
          using "1.IH"(2) [OF rr [symmetric] Inr ChunkMsg data] by blast
      qed
    next
      case EndMsg
      with r "1.prems" show ?thesis
        by (simp add: receive_chunks.simps [of L received_chunks sock])
    next
      case OtherMsg
      with r "1.prems"(1) have "receive_chunks L received_chunks sock1 = (Inr received, sock')"
        by (simp add: receive_chunks.simps [of L received_chunks sock])
      from "1.IH"(3) [OF rr [symmetric] Inr OtherMsg this "1.prems"(2)] show ?thesis .
    qed
  qed
qed

lemma missing_key_length:
  fixes received :: chunk_dict
  assumes d: "distinct (map fst received)"
    and sub: "set (dict_keys received) \<subseteq> {0..<total_chunks}"
    and i: "i \<in> {0..<total_chunks}" "i \<notin> set (dict_keys received)"
  shows "int (length received) \<noteq> total_chunks"
proof -
  have "set (dict_keys received) \<subseteq> {0..<total_chunks} - {i}"
    using sub i by auto
  then have "card (set (dict_keys received)) \<le> card ({0..<total_chunks} - {i})"
    by (intro card_mono) auto
  also have "\<dots> < card {0..<total_chunks}"
    using i(1) by (intro card_Diff1_less) auto
  finally have "card (set (dict_keys received)) < nat total_chunks" by simp
  moreover have "card (set (dict_keys received)) = length received"
    using distinct_card [OF d] by (simp add: dict_keys_def)
  ultimately show ?thesis by auto
qed

lemma upload_file_retry:
  assumes "a_outcome (upload_attempt L sock) = MissingChunks
           \<or> a_outcome (upload_attempt L sock) = ChecksumFailed"
  shows "first_task_upload_file L max_retries retry_count written sock =
           (if retry_count < max_retries then
              (first_task_upload_file L max_retries (retry_count + 1)
                 (case a_file (upload_attempt L sock) of
                    None \<Rightarrow> written | Some content \<Rightarrow> Some content)
                 (a_sock (upload_attempt L sock)))
              \<lparr>u_passes :=
                 Suc (u_passes (first_task_upload_file L max_retries (retry_count + 1)
                   (case a_file (upload_attempt L sock) of
                      None \<Rightarrow> written | Some content \<Rightarrow> Some content)
                   (a_sock (upload_attempt L sock))))\<rparr>
            else \<lparr>u_returned = False, u_passes = 1, u_retry_count = retry_count,
                  u_last = a_outcome (upload_attempt L sock),
                  u_file = (case a_file (upload_attempt L sock) of
                              None \<Rightarrow> written | Some content \<Rightarrow> Some content)\<rparr>)"
  using assms
  by (subst first_task_upload_file.simps) (auto simp: Let_def)

lemma finalize_end_marker:
  "client_recv 1024 st = (''TRANSFER_COMPLETE'', st1) \<Longrightarrow>
   finalize L server_checksum num_chunks st =
     (if sha256_hexdigest L (reassemble num_chunks (c_chunks st1)) = server_checksum
      then sendall ''SUCCESS'' (st1\<lparr>c_saved := Some (reassemble num_chunks (c_chunks st1))\<rparr>)
      else sendall ''CHECKSUM_MISMATCH'' st1)"
  by (simp add: finalize_def Let_def)

lemma receive_iteration_end_marker:
  "client_recv 1024 st = (''TRANSFER_COMPLETE'', st1) \<Longrightarrow>
   receive_iteration L num_chunks st = (Break, st1)"
  by (simp add: receive_iteration_def)

text \<open>
  \<^bold>\<open>C5\<close>, as the code has it. first\_task: when the end marker arrives and a sequence
  number of \<open>0 .. total_chunks - 1\<close> is absent from the buffer (the received
  sequence numbers all lying in that range), the pass neither writes nor accepts the
  partial buffer; \<^verbatim>\<open>upload_file\<close> starts the upload again while
  \<^verbatim>\<open>retry_count < max_retries\<close> and returns \<^verbatim>\<open>False\<close> once the budget is spent.
  The-Multi-Client-Mayhem has no test for completeness: an end marker inside the receive
  loop only leaves the loop, and on the end marker after the loop the client reassembles
  the chunks it has and reports \<^verbatim>\<open>SUCCESS\<close> exactly when the SHA-256 digest of that
  reassembly equals the declared one, \<^verbatim>\<open>CHECKSUM_MISMATCH\<close> otherwise.
\<close>

theorem C5_end_marker_with_missing_chunks:
  "(receive_response L sock = (Inr (Ready server_checksum total_chunks), sock1)
      \<and> receive_chunks L [] sock1 = (Inr received_chunks, sock2)
      \<and> set (dict_keys received_chunks) \<subseteq> {0..<total_chunks}
      \<and> i \<in> {0..<total_chunks} \<and> i \<notin> set (dict_keys received_chunks)
    \<longrightarrow> a_outcome (upload_attempt L sock) = MissingChunks
      \<and> a_file (upload_attempt L sock) = None
      \<and> first_task_upload_file L max_retries retry_count written sock =
          (if retry_count < max_retries then
             (first_task_upload_file L max_retries (retry_count + 1) written sock2)
             \<lparr>u_passes :=
                Suc (u_passes (first_task_upload_file L max_retries (retry_count + 1)
                                 written sock2))\<rparr>
           else \<lparr>u_returned = False, u_passes = 1, u_retry_count = retry_count,
                 u_last = MissingChunks, u_file = written\<rparr>))
   \<and> (client_recv 1024 st = (''TRANSFER_COMPLETE'', st1)
    \<longrightarrow> receive_iteration L num_chunks st = (Break, st1)
      \<and> finalize L declared num_chunks st =
          (if sha256_hexdigest L (reassemble num_chunks (c_chunks st1)) = declared
           then sendall ''SUCCESS''
                  (st1\<lparr>c_saved := Some (reassemble num_chunks (c_chunks st1))\<rparr>)
           else sendall ''CHECKSUM_MISMATCH'' st1))"
proof (intro conjI impI)
  assume h: "receive_response L sock = (Inr (Ready server_checksum total_chunks), sock1)
      \<and> receive_chunks L [] sock1 = (Inr received_chunks, sock2)
      \<and> set (dict_keys received_chunks) \<subseteq> {0..<total_chunks}
      \<and> i \<in> {0..<total_chunks} \<and> i \<notin> set (dict_keys received_chunks)"
  then have "distinct (map fst received_chunks)"
    using receive_chunks_distinct [of L "[]" sock1 received_chunks sock2] by simp
  with h have ne: "int (length received_chunks) \<noteq> total_chunks"
    using missing_key_length [of received_chunks total_chunks i] by blast
  with h have a: "upload_attempt L sock =
      \<lparr>a_outcome = MissingChunks, a_sock = sock2,
       a_received = received_chunks, a_file = None\<rparr>"
    by (simp add: upload_attempt_def)
  then show "a_outcome (upload_attempt L sock) = MissingChunks"
    and "a_file (upload_attempt L sock) = None"
    by simp_all
  from a show "first_task_upload_file L max_retries retry_count written sock =
          (if retry_count < max_retries then
             (first_task_upload_file L max_retries (retry_count + 1) written sock2)
             \<lparr>u_passes :=
                Suc (u_passes (first_task_upload_file L max_retries (retry_count + 1)
                                 written sock2))\<rparr>
           else \<lparr>u_returned = False, u_passes = 1, u_retry_count = retry_count,
                 u_last = MissingChunks, u_file = written\<rparr>)"
    using upload_file_retry [of L sock max_retries retry_count written] by simp
next
  assume "client_recv 1024 st = (''TRANSFER_COMPLETE'', st1)"
  then show "receive_iteration L num_chunks st = (Break, st1)"
    and "finalize L declared num_chunks st =
          (if sha256_hexdigest L (reassemble num_chunks (c_chunks st1)) = declared
           then sendall ''SUCCESS''
                  (st1\<lparr>c_saved := Some (reassemble num_chunks (c_chunks st1))\<rparr>)
           else sendall ''CHECKSUM_MISMATCH'' st1)"
    by (rule receive_iteration_end_marker, rule finalize_end_marker)
qed

theorem C5_end_marker_with_missing_chunks_witness:
  "receive_response demo_lib
      [[CHR 0x00, CHR 0x00, CHR 0x00, CHR 0x05] @ ''R:a:1'',
       [CHR 0x00, CHR 0x00, CHR 0x00, CHR 0x01] @ ''E'']
     = (Inr (Ready ''a'' 1), [[CHR 0x00, CHR 0x00, CHR 0x00, CHR 0x01] @ ''E''])
   \<and> receive_chunks demo_lib [] [[CHR 0x00, CHR 0x00, CHR 0x00, CHR 0x01] @ ''E''] = (Inr [], [])
   \<and> (0::int) \<in> {0..<1}
   \<and> a_outcome (upload_attempt demo_lib
        [[CHR 0x00, CHR 0x00, CHR 0x00, CHR 0x05] @ ''R:a:1'',
         [CHR 0x00, CHR 0x00, CHR 0x00, CHR 0x01] @ ''E'']) = MissingChunks
   \<and> a_file (upload_attempt demo_lib
        [[CHR 0x00, CHR 0x00, CHR 0x00, CHR 0x05] @ ''R:a:1'',
         [CHR 0x00, CHR 0x00, CHR 0x00, CHR 0x01] @ ''E'']) = None
   \<and> first_task_upload_file demo_lib 0 0 None
        [[CHR 0x00, CHR 0x00, CHR 0x00, CHR 0x05] @ ''R:a:1'',
         [CHR 0x00, CHR 0x00, CHR 0x00, CHR 0x01] @ ''E'']
       = \<lparr>u_returned = False, u_passes = 1, u_retry_count = 0,
          u_last = MissingChunks, u_file = None\<rparr>
   \<and> client_recv 1024
        \<lparr>c_inbox = [''TRANSFER_COMPLETE''], c_outbox = [], c_chunks = [(0, ''ab'')],
         c_saved = None\<rparr>
       = (''TRANSFER_COMPLETE'',
          \<lparr>c_inbox = [], c_outbox = [], c_chunks = [(0, ''ab'')], c_saved = None\<rparr>)
   \<and> finalize demo_lib ''abcd'' 2
        \<lparr>c_inbox = [''TRANSFER_COMPLETE''], c_outbox = [], c_chunks = [(0, ''ab'')],
         c_saved = None\<rparr>
       = \<lparr>c_inbox = [], c_outbox = [''CHECKSUM_MISMATCH''], c_chunks = [(0, ''ab'')],
          c_saved = None\<rparr>"
proof -
  let ?sock = "[[CHR 0x00, CHR 0x00, CHR 0x00, CHR 0x05] @ ''R:a:1'',
                [CHR 0x00, CHR 0x00, CHR 0x00, CHR 0x01] @ ''E'']"
  let ?sock1 = "[[CHR 0x00, CHR 0x00, CHR 0x00, CHR 0x01] @ ''E'']"
  let ?st = "\<lparr>c_inbox = [''TRANSFER_COMPLETE''], c_outbox = [], c_chunks = [(0, ''ab'')],
              c_saved = None\<rparr>"
  let ?st1 = "\<lparr>c_inbox = [], c_outbox = [], c_chunks = [(0, ''ab'')], c_saved = None\<rparr>"
  have r: "receive_response demo_lib ?sock = (Inr (Ready ''a'' 1), ?sock1)"
    by code_simp
  have c: "receive_chunks demo_lib [] ?sock1 = (Inr [], [])"
    by code_simp
  have k: "set (dict_keys ([]::chunk_dict)) \<subseteq> {0..<1}" "(0::int) \<in> {0..<1}"
    "(0::int) \<notin> set (dict_keys [])"
    by (simp_all add: dict_keys_def)
  have m: "client_recv 1024 ?st = (''TRANSFER_COMPLETE'', ?st1)"
    by (simp add: client_recv_def recv_def)
  have d: "sha256_hexdigest demo_lib (reassemble 2 (c_chunks ?st1)) \<noteq> ''abcd''"
    by (simp add: demo_lib_def reassemble_def dict_keys_def dict_get_def upt_rec)
  from C5_end_marker_with_missing_chunks
         [where L = demo_lib and sock = ?sock and server_checksum = "''a''"
            and total_chunks = 1 and ?sock1.0 = ?sock1 and received_chunks = "[]"
            and ?sock2.0 = "[]" and i = 0 and max_retries = 0 and retry_count = 0
            and written = None and st = ?st and ?st1.0 = ?st1 and num_chunks = 2
            and declared = "''abcd''"]
       r c k m d
  show ?thesis by (simp add: sendall_def)
qed

text \<open>
  The claim as stated fails on first\_task. The server announces one chunk and the end
  marker arrives with sequence number 0 absent; the pass is recognised as incomplete, the
  client uploads again (the first of its three retries), the second pass delivers the
  chunk, and \<^verbatim>\<open>upload_file\<close> returns \<^verbatim>\<open>True\<close>: the session does not end as failed.
\<close>

theorem C5_counterexample_retry_succeeds:
  "a_outcome (upload_attempt demo_lib
      [[CHR 0x00, CHR 0x00, CHR 0x00, CHR 0x05] @ ''R:a:1'',
       [CHR 0x00, CHR 0x00, CHR 0x00, CHR 0x01] @ ''E'',
       [CHR 0x00, CHR 0x00, CHR 0x00, CHR 0x05] @ ''R:a:1'',
       [CHR 0x00, CHR 0x00, CHR 0x00, CHR 0x06] @ ''C:0:61'',
       [CHR 0x00, CHR 0x00, CHR 0x00, CHR 0x01] @ ''E'']) = MissingChunks
   \<and> a_received (upload_attempt demo_lib
      [[CHR 0x00, CHR 0x00, CHR 0x00, CHR 0x05] @ ''R:a:1'',
       [CHR 0x00, CHR 0x00, CHR 0x00, CHR 0x01] @ ''E'',
       [CHR 0x00, CHR 0x00, CHR 0x00, CHR 0x05] @ ''R:a:1'',
       [CHR 0x00, CHR 0x00, CHR 0x00, CHR 0x06] @ ''C:0:61'',
       [CHR 0x00, CHR 0x00, CHR 0x00, CHR 0x01] @ ''E'']) = []
   \<and> first_task_upload_file demo_lib 3 0 None
      [[CHR 0x00, CHR 0x00, CHR 0x00, CHR 0x05] @ ''R:a:1'',
       [CHR 0x00, CHR 0x00, CHR 0x00, CHR 0x01] @ ''E'',
       [CHR 0x00, CHR 0x00, CHR 0x00, CHR 0x05] @ ''R:a:1'',
       [CHR 0x00, CHR 0x00, CHR 0x00, CHR 0x06] @ ''C:0:61'',
       [CHR 0x00, CHR 0x00, CHR 0x00, CHR 0x01] @ ''E'']
     = \<lparr>u_returned = True, u_passes = 2, u_retry_count = 1, u_last = Verified,
        u_file = Some ''a''\<rparr>"
  by code_simp

text \<open>
  \<^bold>\<open>C6\<close>, as the code has it. A reassembly whose recomputed whole-file digest differs
  from the declared one is never itself reported as a success. The-Multi-Client-Mayhem
  answers \<^verbatim>\<open>CHECKSUM_MISMATCH\<close> and writes no file. first\_task has written the file
  before it compares; it then starts the upload again while
  \<^verbatim>\<open>retry_count < max_retries\<close> and returns \<^verbatim>\<open>False\<close> once the budget is spent; whenever
  \<^verbatim>\<open>upload_file\<close> returns \<^verbatim>\<open>True\<close>, its last pass verified.
\<close>

theorem C6_whole_file_digest_mismatch:
  "(client_recv 1024 st = (''TRANSFER_COMPLETE'', st1)
      \<and> sha256_hexdigest L (reassemble num_chunks (c_chunks st1)) \<noteq> declared
    \<longrightarrow> finalize L declared num_chunks st = sendall ''CHECKSUM_MISMATCH'' st1
      \<and> c_outbox (finalize L declared num_chunks st) = c_outbox st @ [''CHECKSUM_MISMATCH'']
      \<and> c_saved (finalize L declared num_chunks st) = c_saved st)
   \<and> (receive_response L sock = (Inr (Ready server_checksum total_chunks), sock1)
      \<and> receive_chunks L [] sock1 = (Inr received_chunks, sock2)
      \<and> int (length received_chunks) = total_chunks
      \<and> sha256_hexdigest L (save_file received_chunks) \<noteq> server_checksum
    \<longrightarrow> a_outcome (upload_attempt L sock) = ChecksumFailed
      \<and> a_file (upload_attempt L sock) = Some (save_file received_chunks)
      \<and> first_task_upload_file L max_retries retry_count written sock =
          (if retry_count < max_retries then
             (first_task_upload_file L max_retries (retry_count + 1)
                (Some (save_file received_chunks)) sock2)
             \<lparr>u_passes :=
                Suc (u_passes (first_task_upload_file L max_retries (retry_count + 1)
                                 (Some (save_file received_chunks)) sock2))\<rparr>
           else \<lparr>u_returned = False, u_passes = 1, u_retry_count = retry_count,
                 u_last = ChecksumFailed, u_file = Some (save_file received_chunks)\<rparr>))
   \<and> (u_returned (first_task_upload_file L max_retries retry_count written sock)
    \<longrightarrow> u_last (first_task_upload_file L max_retries retry_count written sock) = Verified)"
proof (intro conjI impI)
  assume h: "client_recv 1024 st = (''TRANSFER_COMPLETE'', st1)
      \<and> sha256_hexdigest L (reassemble num_chunks (c_chunks st1)) \<noteq> declared"
  then show f: "finalize L declared num_chunks st = sendall ''CHECKSUM_MISMATCH'' st1"
    by (simp add: finalize_end_marker)
  from h have "c_outbox st1 = c_outbox st" "c_saved st1 = c_saved st"
    using client_recv_fields(2,3) [of 1024 st] by simp_all
  with f show "c_outbox (finalize L declared num_chunks st)
                 = c_outbox st @ [''CHECKSUM_MISMATCH'']"
    and "c_saved (finalize L declared num_chunks st) = c_saved st"
    by simp_all
next
  assume h: "receive_response L sock = (Inr (Ready server_checksum total_chunks), sock1)
      \<and> receive_chunks L [] sock1 = (Inr received_chunks, sock2)
      \<and> int (length received_chunks) = total_chunks
      \<and> sha256_hexdigest L (save_file received_chunks) \<noteq> server_checksum"
  then have a: "upload_attempt L sock =
      \<lparr>a_outcome = ChecksumFailed, a_sock = sock2,
       a_received = received_chunks, a_file = Some (save_file received_chunks)\<rparr>"
    by (simp add: upload_attempt_def)
  then show "a_outcome (upload_attempt L sock) = ChecksumFailed"
    and "a_file (upload_attempt L sock) = Some (save_file received_chunks)"
    by simp_all
  from a show "first_task_upload_file L max_retries retry_count written sock =
          (if retry_count < max_retries then
             (first_task_upload_file L max_retries (retry_count + 1)
                (Some (save_file received_chunks)) sock2)
             \<lparr>u_passes :=
                Suc (u_passes (first_task_upload_file L max_retries (retry_count + 1)
                                 (Some (save_file received_chunks)) sock2))\<rparr>
           else \<lparr>u_returned = False, u_passes = 1, u_retry_count = retry_count,
                 u_last = ChecksumFailed, u_file = Some (save_file received_chunks)\<rparr>)"
    using upload_file_retry [of L sock max_retries retry_count written] by simp
next
  assume "u_returned (first_task_upload_file L max_retries retry_count written sock)"
  then show "u_last (first_task_upload_file L max_retries retry_count written sock) = Verified"
    using upload_last [of L max_retries retry_count written sock] by blast
qed

theorem C6_whole_file_digest_mismatch_witness:
  "client_recv 1024
      \<lparr>c_inbox = [''TRANSFER_COMPLETE''], c_outbox = [],
       c_chunks = [(0, ''ab''), (1, ''xx'')], c_saved = None\<rparr>
     = (''TRANSFER_COMPLETE'',
        \<lparr>c_inbox = [], c_outbox = [], c_chunks = [(0, ''ab''), (1, ''xx'')],
         c_saved = None\<rparr>)
   \<and> sha256_hexdigest demo_lib (reassemble 2 [(0, ''ab''), (1, ''xx'')]) \<noteq> ''abcd''
   \<and> finalize demo_lib ''abcd'' 2
        \<lparr>c_inbox = [''TRANSFER_COMPLETE''], c_outbox = [],
         c_chunks = [(0, ''ab''), (1, ''xx'')], c_saved = None\<rparr>
       = \<lparr>c_inbox = [], c_outbox = [''CHECKSUM_MISMATCH''],
          c_chunks = [(0, ''ab''), (1, ''xx'')], c_saved = None\<rparr>
   \<and> receive_response demo_lib
        [[CHR 0x00, CHR 0x00, CHR 0x00, CHR 0x05] @ ''R:a:1'',
         [CHR 0x00, CHR 0x00, CHR 0x00, CHR 0x06] @ ''C:0:62'',
         [CHR 0x00, CHR 0x00, CHR 0x00, CHR 0x01] @ ''E'']
       = (Inr (Ready ''a'' 1),
          [[CHR 0x00, CHR 0x00, CHR 0x00, CHR 0x06] @ ''C:0:62'',
           [CHR 0x00, CHR 0x00, CHR 0x00, CHR 0x01] @ ''E''])
   \<and> receive_chunks demo_lib []
        [[CHR 0x00, CHR 0x00, CHR 0x00, CHR 0x06] @ ''C:0:62'',
         [CHR 0x00, CHR 0x00, CHR 0x00, CHR 0x01] @ ''E'']
       = (Inr [(0, ''b'')], [])
   \<and> sha256_hexdigest demo_lib (save_file [(0, ''b'')]) \<noteq> ''a''
   \<and> first_task_upload_file demo_lib 0 0 None
        [[CHR 0x00, CHR 0x00, CHR 0x00, CHR 0x05] @ ''R:a:1'',
         [CHR 0x00, CHR 0x00, CHR 0x00, CHR 0x06] @ ''C:0:62'',
         [CHR 0x00, CHR 0x00, CHR 0x00, CHR 0x01] @ ''E'']
       = \<lparr>u_returned = False, u_passes = 1, u_retry_count = 0,
          u_last = ChecksumFailed, u_file = Some ''b''\<rparr>"
proof -
  let ?st = "\<lparr>c_inbox = [''TRANSFER_COMPLETE''], c_outbox = [],
              c_chunks = [(0, ''ab''), (1, ''xx'')], c_saved = None\<rparr>"
  let ?st1 = "\<lparr>c_inbox = [], c_outbox = [], c_chunks = [(0, ''ab''), (1, ''xx'')],
               c_saved = None\<rparr>"
  let ?sock = "[[CHR 0x00, CHR 0x00, CHR 0x00, CHR 0x05] @ ''R:a:1'',
                [CHR 0x00, CHR 0x00, CHR 0x00, CHR 0x06] @ ''C:0:62'',
                [CHR 0x00, CHR 0x00, CHR 0x00, CHR 0x01] @ ''E'']"
  let ?sock1 = "[[CHR 0x00, CHR 0x00, CHR 0x00, CHR 0x06] @ ''C:0:62'',
                 [CHR 0x00, CHR 0x00, CHR 0x00, CHR 0x01] @ ''E'']"
  have m: "client_recv 1024 ?st = (''TRANSFER_COMPLETE'', ?st1)"
    by (simp add: client_recv_def recv_def)
  have d: "sha256_hexdigest demo_lib (reassemble 2 [(0, ''ab''), (1, ''xx'')]) \<noteq> ''abcd''"
    by (simp add: demo_lib_def reassemble_def dict_keys_def dict_get_def upt_rec)
  have r: "receive_response demo_lib ?sock = (Inr (Ready ''a'' 1), ?sock1)"
    by code_simp
  have c: "receive_chunks demo_lib [] ?sock1 = (Inr [(0, ''b'')], [])"
    by code_simp
  have s: "save_file [(0, ''b'')] = ''b''"
    by (simp add: save_file_def dict_keys_def dict_get_def)
  have e: "sha256_hexdigest demo_lib (save_file [(0, ''b'')]) \<noteq> ''a''"
    by (simp add: s demo_lib_def)
  from C6_whole_file_digest_mismatch
         [where L = demo_lib and st = ?st and ?st1.0 = ?st1 and num_chunks = 2
            and declared = "''abcd''" and sock = ?sock and server_checksum = "''a''"
            and total_chunks = 1 and ?sock1.0 = ?sock1 and received_chunks = "[(0, ''b'')]"
            and ?sock2.0 = "[]" and max_retries = 0 and retry_count = 0 and written = None]
       m d r c e s
  show ?thesis by (simp add: sendall_def)
qed

text \<open>
  The claim as stated fails in both variants. The-Multi-Client-Mayhem: the two chunks
  \<open>ab\<close> and \<open>xx\<close> verify one by one, but their reassembly is not the file \<open>abcd\<close>
  the digest was declared for; the client answers \<^verbatim>\<open>CHECKSUM_MISMATCH\<close> and no file is
  saved. first\_task: the first pass reassembles \<open>b\<close> where the declared digest is that
  of \<open>a\<close>; the client uploads again, the second pass verifies, and the session is
  reported as a success.
\<close>

theorem C6_counterexample_not_saved_or_retried:
  "mayhem_upload_file demo_lib ''abcd''
      [''OK'', ''abcd'', ''2'', ''9'', ''0:6162:ab'', ''9'', ''1:7878:xx'', ''TRANSFER_COMPLETE'']
     = \<lparr>c_inbox = [],
        c_outbox = [''4'', ''abcd'', ''OK'', ''OK'', ''OK'', ''OK'', ''OK'', ''CHECKSUM_MISMATCH''],
        c_chunks = [(0, ''ab''), (1, ''xx'')], c_saved = None\<rparr>
   \<and> a_outcome (upload_attempt demo_lib
        [[CHR 0x00, CHR 0x00, CHR 0x00, CHR 0x05] @ ''R:a:1'',
         [CHR 0x00, CHR 0x00, CHR 0x00, CHR 0x06] @ ''C:0:62'',
         [CHR 0x00, CHR 0x00, CHR 0x00, CHR 0x01] @ ''E'',
         [CHR 0x00, CHR 0x00, CHR 0x00, CHR 0x05] @ ''R:a:1'',
         [CHR 0x00, CHR 0x00, CHR 0x00, CHR 0x06] @ ''C:0:61'',
         [CHR 0x00, CHR 0x00, CHR 0x00, CHR 0x01] @ ''E'']) = ChecksumFailed
   \<and> first_task_upload_file demo_lib 3 0 None
        [[CHR 0x00, CHR 0x00, CHR 0x00, CHR 0x05] @ ''R:a:1'',
         [CHR 0x00, CHR 0x00, CHR 0x00, CHR 0x06] @ ''C:0:62'',
         [CHR 0x00, CHR 0x00, CHR 0x00, CHR 0x01] @ ''E'',
         [CHR 0x00, CHR 0x00, CHR 0x00, CHR 0x05] @ ''R:a:1'',
         [CHR 0x00, CHR 0x00, CHR 0x00, CHR 0x06] @ ''C:0:61'',
         [CHR 0x00, CHR 0x00, CHR 0x00, CHR 0x01] @ ''E'']
       = \<lparr>u_returned = True, u_passes = 2, u_retry_count = 1, u_last = Verified,
          u_file = Some ''a''\<rparr>"
  by code_simp


end
